theory Spec2Isabelle
  imports Complex_Main "HOL-Library.Word"
begin

section \<open>Strings as the source uses them\<close>

text \<open>
  JavaScript strings are modelled as \<^typ>\<open>string\<close>, one \<^typ>\<open>char\<close> per code unit, for
  the code units below 256 (a header value is a byte string and has no others). Every
  literal of the source (platform domains, separators, extensions) is ASCII.
\<close>

definition lower_letters :: string where
  "lower_letters = ''abcdefghijklmnopqrstuvwxyz''"

definition upper_letters :: string where
  "upper_letters = ''ABCDEFGHIJKLMNOPQRSTUVWXYZ''"

text \<open>
  The upper-case form of an ASCII character. It is the canonical form that a regular
  expression with the flag \<open>i\<close> and without the flag \<open>u\<close> compares (there a code unit
  above 127 never matches an ASCII letter), and it is what \<open>String.prototype.toUpperCase\<close>
  gives on an ASCII character.
\<close>

definition toUpperCase :: "char \<Rightarrow> char" where
  "toUpperCase c = (case map_of (zip lower_letters upper_letters) c of
                      Some u \<Rightarrow> u
                    | None \<Rightarrow> c)"

text \<open>
  The rendering of a non-negative integer by a template literal \<open>`${n}`\<close>: its decimal
  digits, most significant first, no leading zero. \<open>digit_char\<close> is only applied to
  numbers below ten.
\<close>

definition digit_char :: "nat \<Rightarrow> char" where
  "digit_char d = ''0123456789'' ! d"

function digits :: "nat \<Rightarrow> string" where
  "digits n = (if n < 10 then [digit_char n] else digits (n div 10) @ [digit_char (n mod 10)])"
  by pat_completeness auto
termination
  by (relation "measure id") auto

declare digits.simps [simp del]

text \<open>\<open>s.substring(a, b)\<close> for \<open>a \<le> b\<close>, both non-negative.\<close>

definition substring :: "nat \<Rightarrow> nat \<Rightarrow> string \<Rightarrow> string" where
  "substring a b s = take (b - a) (drop a s)"

text \<open>\<open>s.slice(-n)\<close>: the last \<open>n\<close> characters.\<close>

definition slice_last :: "nat \<Rightarrow> string \<Rightarrow> string" where
  "slice_last n s = drop (length s - n) s"

text \<open>
  \<open>s.split(c)\<close> for a one-character separator: the input is read from left to right,
  \<open>piece\<close> holding the characters since the last separator. The result is never empty:
  the empty string splits into one empty piece.
\<close>

fun split_from :: "char \<Rightarrow> string \<Rightarrow> string \<Rightarrow> string list" where
  "split_from sep piece [] = [piece]"
| "split_from sep piece (c # cs) =
     (if c = sep then piece # split_from sep [] cs else split_from sep (piece @ [c]) cs)"

definition split :: "char \<Rightarrow> string \<Rightarrow> string list" where
  "split sep s = split_from sep [] s"

text \<open>\<open>Array.prototype.pop\<close> as used on the result of \<open>split\<close>: the last element.\<close>

definition pop :: "string list \<Rightarrow> string option" where
  "pop xs = (if xs = [] then None else Some (last xs))"

section \<open>Regular expressions of the source\<close>

text \<open>
  The platform patterns are alternations of literal strings, tested with \<open>RegExp.test\<close>
  under the flag \<open>i\<close>: the engine tries each start position from left to right and, at each,
  the alternatives in order; two characters agree when their canonical (upper-case) forms
  are equal.
\<close>

fun match_here :: "string \<Rightarrow> string \<Rightarrow> bool" where
  "match_here [] s = True"
| "match_here (p # ps) [] = False"
| "match_here (p # ps) (c # cs) = (toUpperCase c = toUpperCase p \<and> match_here ps cs)"

definition match_alternatives :: "string list \<Rightarrow> string \<Rightarrow> bool" where
  "match_alternatives alts s = list_ex (\<lambda>a. match_here a s) alts"

fun regex_test :: "string list \<Rightarrow> string \<Rightarrow> bool" where
  "regex_test alts [] = match_alternatives alts []"
| "regex_test alts (c # cs) = (match_alternatives alts (c # cs) \<or> regex_test alts cs)"

text \<open>
  The extension pattern \<open>/\.[^/.]+$/\<close>: a dot, then one or more characters that are neither
  a slash nor a dot, up to the end of the input. \<open>ext_match_here s\<close> says that the pattern
  matches the whole of \<open>s\<close>; \<open>replace_ext r s\<close> is \<open>s.replace(/\.[^/.]+$/, r)\<close>, which
  replaces the leftmost match and leaves a string without a match unchanged.
\<close>

definition ext_match_here :: "string \<Rightarrow> bool" where
  "ext_match_here s =
     (case s of
        [] \<Rightarrow> False
      | c # cs \<Rightarrow> c = CHR ''.'' \<and> cs \<noteq> [] \<and> list_all (\<lambda>x. x \<noteq> CHR ''/'' \<and> x \<noteq> CHR ''.'') cs)"

fun replace_ext :: "string \<Rightarrow> string \<Rightarrow> string" where
  "replace_ext r [] = []"
| "replace_ext r (c # cs) = (if ext_match_here (c # cs) then r else c # replace_ext r cs)"

text \<open>\<open>s.replace(/[_-]/g, " ")\<close>: every underscore and dash becomes a space.\<close>

definition replace_separators :: "string \<Rightarrow> string" where
  "replace_separators s = map (\<lambda>c. if c = CHR ''_'' \<or> c = CHR ''-'' then CHR '' '' else c) s"

section \<open>cobalt.ts: platforms, titles\<close>

record platform_entry =
  name :: string
  pattern :: "string list"
  icon :: string

definition SUPPORTED_PLATFORMS :: "platform_entry list" where
  "SUPPORTED_PLATFORMS =
     [\<lparr>name = ''YouTube'', pattern = [''youtube.com'', ''youtu.be''], icon = ''youtube''\<rparr>,
      \<lparr>name = ''TikTok'', pattern = [''tiktok.com''], icon = ''tiktok''\<rparr>,
      \<lparr>name = ''Instagram'', pattern = [''instagram.com''], icon = ''instagram''\<rparr>,
      \<lparr>name = ''LinkedIn'', pattern = [''linkedin.com''], icon = ''linkedin''\<rparr>,
      \<lparr>name = ''Twitter/X'', pattern = [''twitter.com'', ''x.com''], icon = ''twitter''\<rparr>,
      \<lparr>name = ''Vimeo'', pattern = [''vimeo.com''], icon = ''vimeo''\<rparr>]"

text \<open>The \<open>for ... of\<close> loop of \<open>detectPlatform\<close>, over any list of platforms.\<close>

fun detect_in :: "platform_entry list \<Rightarrow> string \<Rightarrow> string option" where
  "detect_in [] url = None"
| "detect_in (p # ps) url = (if regex_test (pattern p) url then Some (name p) else detect_in ps url)"

definition detectPlatform :: "string \<Rightarrow> string option" where
  "detectPlatform url = detect_in SUPPORTED_PLATFORMS url"

definition isUrlSupported :: "string \<Rightarrow> bool" where
  "isUrlSupported url = (detectPlatform url \<noteq> None)"

text \<open>
  \<open>s.charAt(0).toUpperCase() + s.slice(1)\<close>. \<open>charAt(0)\<close> of the empty string is the empty
  string. \<open>String.prototype.toUpperCase\<close> follows the Unicode tables of the runtime, which
  are not in the source: on an ASCII character it is \<open>toUpperCase\<close>; on a character above
  127 (the eighth bit of the \<^typ>\<open>char\<close> is set) its result, which may be another
  character or several, is given by the argument \<open>upper\<close>.
\<close>

definition capitalize_first :: "(char \<Rightarrow> string) \<Rightarrow> string \<Rightarrow> string" where
  "capitalize_first upper s =
     (case s of
        [] \<Rightarrow> []
      | c # cs \<Rightarrow> (if digit7 c then upper c else [toUpperCase c]) @ cs)"

definition extractTitleFromFilename :: "(char \<Rightarrow> string) \<Rightarrow> string \<Rightarrow> string" where
  "extractTitleFromFilename upper filename =
     (let withoutExt = replace_ext [] filename;
          cleaned = replace_separators withoutExt
      in capitalize_first upper cleaned)"

section \<open>Errors, buffers, numbers\<close>

text \<open>
  A rejected promise or a thrown value is \<open>Inl\<close> of a \<open>js_error\<close>: an \<open>Error\<close> object with
  its message, or any other thrown value. A \<open>Buffer\<close> is a list of bytes.
\<close>

datatype js_error = Error (message: string) | NonError

type_synonym buffer = "8 word list"

text \<open>\<open>x || d\<close> on an optional string: \<open>null\<close>, \<open>undefined\<close> and the empty string are falsy.\<close>

definition or_default :: "string option \<Rightarrow> string \<Rightarrow> string" where
  "or_default x d = (case x of None \<Rightarrow> d | Some s \<Rightarrow> if s = [] then d else s)"

text \<open>
  The numbers that \<open>parseInt\<close> and a buffer length can give: an integer, \<open>NaN\<close>, or an
  infinity.
\<close>

datatype number = Num int | NaN | Infinity | NegInfinity

text \<open>
  \<open>parseInt(s, 10)\<close>: leading white space is skipped, one sign is read, then the longest run
  of decimal digits; no digit gives \<open>NaN\<close>. The white space below 256 is tab, line feed,
  vertical tab, form feed, carriage return, space and the no-break space. The result is a
  double: an integer of magnitude below \<open>2^53\<close> is exact; for a larger one the double that
  the runtime picks (a rounded integer or an infinity) is given by the argument \<open>large\<close>.
\<close>

definition is_space :: "char \<Rightarrow> bool" where
  "is_space c =
     (c \<in> set [CHR 0x09, CHR 0x0A, CHR 0x0B, CHR 0x0C, CHR 0x0D, CHR '' '', CHR 0xA0])"

definition is_digit :: "char \<Rightarrow> bool" where
  "is_digit c = (c \<in> set ''0123456789'')"

definition digit_val :: "char \<Rightarrow> nat" where
  "digit_val c = length (takeWhile (\<lambda>d. d \<noteq> c) ''0123456789'')"

definition decimal_value :: "string \<Rightarrow> nat" where
  "decimal_value ds = foldl (\<lambda>a c. 10 * a + digit_val c) 0 ds"

definition parseInt10 :: "(int \<Rightarrow> number) \<Rightarrow> string \<Rightarrow> number" where
  "parseInt10 large s =
     (let t = dropWhile is_space s;
          negative = (t \<noteq> [] \<and> hd t = CHR ''-'');
          u = (if t \<noteq> [] \<and> (hd t = CHR ''-'' \<or> hd t = CHR ''+'') then tl t else t);
          ds = takeWhile is_digit u
      in if ds = [] then NaN
         else (let v = (if negative then - 1 else 1) * int (decimal_value ds)
               in if \<bar>v\<bar> < 2 ^ 53 then Num v else large v))"

section \<open>The outside world\<close>

text \<open>
  What \<open>fetch\<close> resolves to: the fields of the response the source reads. The body is what
  \<open>response.json()\<close> or \<open>response.arrayBuffer()\<close> resolves to, or the error it rejects with.
  A rejected \<open>fetch\<close> (service unreachable) is \<open>Inl\<close>.
\<close>

record 'b http_response =
  ok :: bool
  status :: nat
  statusText :: string
  header_content_type :: "string option"
  header_content_length :: "string option"
  body :: "js_error + 'b"

type_synonym 'b fetch_outcome = "js_error + 'b http_response"

datatype tunnel_status = Tunnel | Redirect

datatype picker_type = Video | Photo

record picker_item =
  item_type :: picker_type
  item_url :: string
  thumb :: "string option"

datatype CobaltResponse =
    CobaltTunnelResponse tunnel_status string string
  | CobaltPickerResponse "picker_item list"
  | CobaltErrorResponse string "string option"
  | CobaltUnknownResponse string

record CobaltDownloadOptions =
  url :: string
  videoQuality :: "string option"
  audioFormat :: "string option"
  audioBitrate :: "string option"
  downloadMode :: "string option"
  filenameStyle :: "string option"
  youtubeVideoCodec :: "string option"

record cobalt_request_body =
  sent_url :: string
  sent_videoQuality :: string
  sent_audioFormat :: string
  sent_audioBitrate :: string
  sent_downloadMode :: string
  sent_filenameStyle :: string
  sent_youtubeVideoCodec :: string

text \<open>How a child process ends: it could not be spawned, or it closed with an exit code
  (\<open>null\<close> when a signal ended it) and what it wrote to stderr.\<close>

datatype proc_outcome = SpawnFailed string | Closed "nat option" string

datatype write_outcome = WriteOk | WriteFailed js_error "buffer option"

record video_row =
  video_id :: string
  title :: string
  fileName :: string
  fileKey :: string
  fileSize :: int
  mimeType :: string
  video_status :: string
  platform :: "string option"
  originalUrl :: string

record DownloadRequest =
  req_url :: "string option"
  req_videoQuality :: "string option"
  req_downloadMode :: "string option"
  req_compress :: "bool option"

text \<open>
  The mutable world: the URLs requested with \<open>fetch\<close> (in order), the objects of the bucket
  (key to body and content type), the rows of the video table, and the files of the
  temporary directory.
\<close>

record world =
  requests :: "string list"
  bucket :: "string \<rightharpoonup> buffer \<times> string"
  video_table :: "video_row list"
  tmp_files :: "string \<rightharpoonup> buffer"

text \<open>
  Everything the code reads from outside, fixed for one run of the route handler: the
  configuration, the request body, the answers of the resolution service and of the media
  hosts, the clock and the random sources, and the outcome of each file, process, bucket
  and database operation. The last three fields are tables of the runtime: the upper-case
  form of a character above 127, the double of an integer of magnitude \<open>2^53\<close> or more, and
  the text that a template literal gives for a property inherited from
  \<open>Object.prototype\<close>.
\<close>

record env =
  COBALT_API_URL :: string
  COMPRESSION_ENABLED :: bool
  request_json :: "js_error + DownloadRequest"
  cobalt_fetch :: "cobalt_request_body \<Rightarrow> CobaltResponse fetch_outcome"
  media_fetch :: "string \<Rightarrow> buffer fetch_outcome"
  ffmpeg_version :: proc_outcome
  tmpdir :: string
  uuid_input :: string
  uuid_output :: string
  write_input :: write_outcome
  ffmpeg_run :: proc_outcome
  ffmpeg_output :: "buffer option"
  read_output_error :: "js_error option"
  unlink_fails :: "string set"
  now :: nat
  random36 :: string
  put_object :: "js_error option"
  video_create :: "js_error + string"
  unicode_upper :: "char \<Rightarrow> string"
  large_number :: "int \<Rightarrow> number"
  inherited_text :: "string \<Rightarrow> string"

section \<open>cobalt.ts: resolution and download\<close>

definition requestDownload ::
  "env \<Rightarrow> CobaltDownloadOptions \<Rightarrow> world \<Rightarrow> (js_error + CobaltResponse) \<times> world" where
  "requestDownload e options w =
     (let w' = w\<lparr>requests := requests w @ [COBALT_API_URL e]\<rparr>;
          sent = \<lparr>sent_url = url options,
                  sent_videoQuality = or_default (videoQuality options) ''1080'',
                  sent_audioFormat = or_default (audioFormat options) ''mp3'',
                  sent_audioBitrate = or_default (audioBitrate options) ''128'',
                  sent_downloadMode = or_default (downloadMode options) ''auto'',
                  sent_filenameStyle = or_default (filenameStyle options) ''basic'',
                  sent_youtubeVideoCodec = or_default (youtubeVideoCodec options) ''h264''\<rparr>
      in case cobalt_fetch e sent of
           Inl err \<Rightarrow> (Inl err, w')
         | Inr response \<Rightarrow>
             if \<not> ok response
             then (Inl (Error (''Cobalt API error: '' @ digits (status response) @ '' ''
                               @ statusText response)), w')
             else (body response, w'))"

record download_result =
  buffer :: buffer
  contentType :: string
  contentLength :: number

definition downloadFromUrl ::
  "env \<Rightarrow> string \<Rightarrow> world \<Rightarrow> (js_error + download_result) \<times> world" where
  "downloadFromUrl e u w =
     (let w' = w\<lparr>requests := requests w @ [u]\<rparr>
      in case media_fetch e u of
           Inl err \<Rightarrow> (Inl err, w')
         | Inr response \<Rightarrow>
             if \<not> ok response
             then (Inl (Error (''Download failed: '' @ digits (status response) @ '' ''
                               @ statusText response)), w')
             else
               (let ctype = or_default (header_content_type response) ''video/mp4'';
                    clen = parseInt10 (large_number e) (or_default (header_content_length response) ''0'')
                in case body response of
                     Inl err \<Rightarrow> (Inl err, w')
                   | Inr buf \<Rightarrow>
                       (Inr \<lparr>buffer = buf, contentType = ctype,
                             contentLength = (case clen of
                                                Num n \<Rightarrow> if n = 0 then Num (int (length buf)) else Num n
                                              | NaN \<Rightarrow> Num (int (length buf))
                                              | Infinity \<Rightarrow> Infinity
                                              | NegInfinity \<Rightarrow> NegInfinity)\<rparr>,
                        w')))"

section \<open>storage.ts\<close>

text \<open>
  \<open>generateFileKey\<close> reads the clock (\<open>Date.now()\<close>) and the random source
  (\<open>Math.random().toString(36)\<close>, the text \<open>0.\<close> followed by base-36 digits); both are
  arguments here. An \<open>undefined\<close> extension would be rendered as that word.
\<close>

definition generateFileKey :: "nat \<Rightarrow> string \<Rightarrow> string \<Rightarrow> string" where
  "generateFileKey timestamp rnd originalFileName =
     (let randomString = substring 2 15 rnd;
          extension = pop (split CHR ''.'' originalFileName)
      in ''videos/'' @ digits timestamp @ ''-'' @ randomString @ ''.''
         @ (case extension of Some x \<Rightarrow> x | None \<Rightarrow> ''undefined''))"

definition uploadFile ::
  "env \<Rightarrow> string \<Rightarrow> buffer \<Rightarrow> string \<Rightarrow> world \<Rightarrow> (js_error + string) \<times> world" where
  "uploadFile e key content ctype w =
     (case put_object e of
        Some err \<Rightarrow> (Inl err, w)
      | None \<Rightarrow> (Inr key, w\<lparr>bucket := (bucket w)(key \<mapsto> (content, ctype))\<rparr>))"

section \<open>compress.ts\<close>

record CompressionResult =
  compressed_buffer :: buffer
  originalSize :: nat
  compressedSize :: nat
  compressionRatio :: "real option"

text \<open>
  \<open>getExtensionFromMimeType\<close> indexes a plain object with the MIME type: an entry of the
  table gives its extension; a name that the object inherits from \<open>Object.prototype\<close> gives
  a function or an object, which is truthy and which the template literal of the path
  turns into text (the argument \<open>inherited\<close>); every other type gives \<open>mp4\<close>.
\<close>

definition mimeMap :: "(string \<times> string) list" where
  "mimeMap =
     [(''video/mp4'', ''mp4''),
      (''video/webm'', ''webm''),
      (''video/quicktime'', ''mov''),
      (''video/x-msvideo'', ''avi''),
      (''video/x-matroska'', ''mkv''),
      (''video/mpeg'', ''mpeg''),
      (''video/3gpp'', ''3gp'')]"

definition Object_prototype_names :: "string list" where
  "Object_prototype_names =
     [''constructor'', ''__proto__'', ''hasOwnProperty'', ''isPrototypeOf'',
      ''propertyIsEnumerable'', ''toLocaleString'', ''toString'', ''valueOf'',
      ''__defineGetter__'', ''__defineSetter__'', ''__lookupGetter__'', ''__lookupSetter__'']"

definition getExtensionFromMimeType :: "(string \<Rightarrow> string) \<Rightarrow> string \<Rightarrow> string" where
  "getExtensionFromMimeType inherited mime =
     (case map_of mimeMap mime of
        Some ext \<Rightarrow> (if ext = [] then ''mp4'' else ext)
      | None \<Rightarrow> (if mime \<in> set Object_prototype_names then inherited mime else ''mp4''))"

text \<open>A path between single quotes, as the messages of the file system errors show it.\<close>

definition quoted :: "string \<Rightarrow> string" where
  "quoted path = [CHR 0x27] @ path @ [CHR 0x27]"

text \<open>\<open>path.join(dir, file)\<close> for a directory and a plain file name.\<close>

definition join :: "string \<Rightarrow> string \<Rightarrow> string" where
  "join dir file = dir @ ''/'' @ file"

definition writeFile :: "env \<Rightarrow> string \<Rightarrow> buffer \<Rightarrow> world \<Rightarrow> (js_error + unit) \<times> world" where
  "writeFile e path content w =
     (case write_input e of
        WriteOk \<Rightarrow> (Inr (), w\<lparr>tmp_files := (tmp_files w)(path \<mapsto> content)\<rparr>)
      | WriteFailed err left \<Rightarrow>
          (Inl err, (case left of
                       None \<Rightarrow> w
                     | Some part \<Rightarrow> w\<lparr>tmp_files := (tmp_files w)(path \<mapsto> part)\<rparr>)))"

definition readFile :: "env \<Rightarrow> string \<Rightarrow> world \<Rightarrow> (js_error + buffer) \<times> world" where
  "readFile e path w =
     (case read_output_error e of
        Some err \<Rightarrow> (Inl err, w)
      | None \<Rightarrow>
          (case tmp_files w path of
             None \<Rightarrow> (Inl (Error (''ENOENT: no such file or directory, open '' @ quoted path)), w)
           | Some content \<Rightarrow> (Inr content, w)))"

text \<open>
  \<open>fs.unlink\<close>: it rejects, and removes nothing, on a path it cannot remove or that does
  not exist.
\<close>

definition unlink :: "env \<Rightarrow> string \<Rightarrow> world \<Rightarrow> (js_error + unit) \<times> world" where
  "unlink e path w =
     (if path \<in> unlink_fails e
      then (Inl (Error (''EPERM: operation not permitted, unlink '' @ quoted path)), w)
      else if tmp_files w path = None
      then (Inl (Error (''ENOENT: no such file or directory, unlink '' @ quoted path)), w)
      else (Inr (), w\<lparr>tmp_files := (tmp_files w)(path := None)\<rparr>))"

definition show_code :: "nat option \<Rightarrow> string" where
  "show_code code = (case code of None \<Rightarrow> ''null'' | Some c \<Rightarrow> digits c)"

text \<open>
  \<open>runFFmpeg\<close>: the promise resolves when the encoder closes with code 0 and rejects on any
  other code and when the process cannot be spawned. The encoder's argument list is fixed
  by the options and is not part of the model; what the encoder leaves at the output path
  is given by the environment.
\<close>

definition runFFmpeg :: "env \<Rightarrow> string \<Rightarrow> string \<Rightarrow> world \<Rightarrow> (js_error + unit) \<times> world" where
  "runFFmpeg e inputPath outputPath w =
     (case ffmpeg_run e of
        SpawnFailed msg \<Rightarrow> (Inl (Error (''FFmpeg spawn error: '' @ msg)), w)
      | Closed code stderr \<Rightarrow>
          (let w' = (case ffmpeg_output e of
                       None \<Rightarrow> w
                     | Some out \<Rightarrow> w\<lparr>tmp_files := (tmp_files w)(outputPath \<mapsto> out)\<rparr>)
           in if code = Some 0 then (Inr (), w')
              else (Inl (Error (''FFmpeg exited with code '' @ show_code code @ '': ''
                                @ slice_last 500 stderr)), w')))"

text \<open>The \<open>try\<close> block of \<open>compressVideo\<close>.\<close>

definition compressVideo_try ::
  "env \<Rightarrow> string \<Rightarrow> string \<Rightarrow> buffer \<Rightarrow> world \<Rightarrow> (js_error + CompressionResult) \<times> world" where
  "compressVideo_try e inputPath outputPath inputBuffer w =
     (case writeFile e inputPath inputBuffer w of
        (Inl err, w1) \<Rightarrow> (Inl err, w1)
      | (Inr _, w1) \<Rightarrow>
          (case runFFmpeg e inputPath outputPath w1 of
             (Inl err, w2) \<Rightarrow> (Inl err, w2)
           | (Inr _, w2) \<Rightarrow>
               (case readFile e outputPath w2 of
                  (Inl err, w3) \<Rightarrow> (Inl err, w3)
                | (Inr compressedBuffer, w3) \<Rightarrow>
                    (Inr \<lparr>compressed_buffer = compressedBuffer,
                          originalSize = length inputBuffer,
                          compressedSize = length compressedBuffer,
                          compressionRatio =
                            (if length inputBuffer = 0 then None
                             else Some ((1 - real (length compressedBuffer) / real (length inputBuffer)) * 100))\<rparr>,
                     w3))))"

text \<open>
  \<open>compressVideo\<close>: the \<open>try\<close> block, then the \<open>finally\<close> block, whose two \<open>unlink\<close> calls
  each sit in a \<open>try\<close> with an empty \<open>catch\<close>; the result of the \<open>try\<close> block is what the
  caller gets. The \<open>options\<close> argument only feeds the encoder's argument list and is left
  out; the random identifiers of the two paths come from the environment.
\<close>

definition compressVideo ::
  "env \<Rightarrow> buffer \<Rightarrow> string \<Rightarrow> world \<Rightarrow> (js_error + CompressionResult) \<times> world" where
  "compressVideo e inputBuffer inputMimeType w =
     (let inputExt = getExtensionFromMimeType (inherited_text e) inputMimeType;
          inputPath = join (tmpdir e) (uuid_input e @ ''.'' @ inputExt);
          outputPath = join (tmpdir e) (uuid_output e @ ''.mp4'');
          (result, w1) = compressVideo_try e inputPath outputPath inputBuffer w;
          w2 = snd (unlink e inputPath w1);
          w3 = snd (unlink e outputPath w2)
      in (result, w3))"

text \<open>
  \<open>compressVideo\<close> with the run of the encoder given apart, so that a run that does not end
  is covered too. The promise of \<open>runFFmpeg\<close> settles on the \<open>close\<close> and the \<open>error\<close> event
  of the child process and on nothing else: the source sets no timer, takes no abort signal
  and never kills the child. When the encoder ends, the operation is \<open>compressVideo\<close> with
  that outcome. When it does not end (it hangs, or the caller gives up before it closes),
  the operation stays at its \<open>await\<close>: it has written the input file, it does not return
  (the result is \<open>None\<close>) and its \<open>finally\<close> block is not reached. A failed write of
  the input file comes before the encoder is started.
\<close>

datatype encoder_run = Ends proc_outcome | NeverEnds

definition compressVideo_run ::
  "encoder_run \<Rightarrow> env \<Rightarrow> buffer \<Rightarrow> string \<Rightarrow> world
     \<Rightarrow> (js_error + CompressionResult) option \<times> world" where
  "compressVideo_run run e inputBuffer inputMimeType w =
     (case run of
        Ends outcome \<Rightarrow>
          (case compressVideo (e\<lparr>ffmpeg_run := outcome\<rparr>) inputBuffer inputMimeType w of
             (result, w') \<Rightarrow> (Some result, w'))
      | NeverEnds \<Rightarrow>
          (let inputExt = getExtensionFromMimeType (inherited_text e) inputMimeType;
               inputPath = join (tmpdir e) (uuid_input e @ ''.'' @ inputExt);
               outputPath = join (tmpdir e) (uuid_output e @ ''.mp4'')
           in case writeFile e inputPath inputBuffer w of
                (Inl err, w1) \<Rightarrow>
                  (Some (Inl err), snd (unlink e outputPath (snd (unlink e inputPath w1))))
              | (Inr _, w1) \<Rightarrow>
                  (None, (case ffmpeg_output e of
                            None \<Rightarrow> w1
                          | Some out \<Rightarrow> w1\<lparr>tmp_files := (tmp_files w1)(outputPath \<mapsto> out)\<rparr>))))"

definition checkFFmpegAvailable :: "env \<Rightarrow> bool" where
  "checkFFmpegAvailable e =
     (case ffmpeg_version e of
        SpawnFailed msg \<Rightarrow> False
      | Closed code stderr \<Rightarrow> code = Some 0)"

section \<open>The download route\<close>

text \<open>
  The reply of the route handler: its status, its error message or the row it reports
  (the source sends a selection of the row's fields), and, in the tunnel branch, the
  original size and the bytes saved by compression.
\<close>

record http_reply =
  reply_status :: nat
  reply_error :: "string option"
  reply_video :: "video_row option"
  reply_originalSize :: "int option"
  reply_compressionSaved :: "int option"

definition json_error :: "nat \<Rightarrow> string \<Rightarrow> http_reply" where
  "json_error code msg =
     \<lparr>reply_status = code, reply_error = Some msg, reply_video = None,
      reply_originalSize = None,
      reply_compressionSaved = None\<rparr>"

definition create_video :: "env \<Rightarrow> video_row \<Rightarrow> world \<Rightarrow> (js_error + video_row) \<times> world" where
  "create_video e row w =
     (case video_create e of
        Inl err \<Rightarrow> (Inl err, w)
      | Inr new_id \<Rightarrow>
          (let created = row\<lparr>video_id := new_id\<rparr>
           in (Inr created, w\<lparr>video_table := video_table w @ [created]\<rparr>)))"

text \<open>
  The compression step, written twice in the source (picker and tunnel branch): when
  compression is wanted and the encoder answers its version probe, \<open>compressVideo\<close> runs
  inside a \<open>try\<close>; its error is caught and the original buffer, size and content type stay.
\<close>

definition compress_step ::
  "env \<Rightarrow> bool \<Rightarrow> buffer \<Rightarrow> string \<Rightarrow> world \<Rightarrow> (buffer \<times> int \<times> string) \<times> world" where
  "compress_step e shouldCompress buf ctype w =
     (if shouldCompress \<and> checkFFmpegAvailable e
      then (case compressVideo e buf ctype w of
              (Inr compressed, w') \<Rightarrow>
                ((compressed_buffer compressed, int (compressedSize compressed), ''video/mp4''), w')
            | (Inl compressError, w') \<Rightarrow> ((buf, int (length buf), ctype), w'))
      else ((buf, int (length buf), ctype), w))"

definition POST_picker ::
  "env \<Rightarrow> string \<Rightarrow> string option \<Rightarrow> bool \<Rightarrow> picker_item list \<Rightarrow> world
     \<Rightarrow> (js_error + http_reply) \<times> world" where
  "POST_picker e reqUrl plat shouldCompress picker w =
     (case find (\<lambda>item. item_type item = Video) picker of
        None \<Rightarrow> (Inr (json_error 400 ''No video found in the content''), w)
      | Some firstVideo \<Rightarrow>
          (case downloadFromUrl e (item_url firstVideo) w of
             (Inl err, w1) \<Rightarrow> (Inl err, w1)
           | (Inr dl, w1) \<Rightarrow>
               (case compress_step e shouldCompress (buffer dl) (contentType dl) w1 of
                  ((buf, finalSize, ctype), w2) \<Rightarrow>
                    (let key = generateFileKey (now e) (random36 e) ''video.mp4''
                     in case uploadFile e key buf ctype w2 of
                          (Inl err, w3) \<Rightarrow> (Inl err, w3)
                        | (Inr _, w3) \<Rightarrow>
                            (case create_video e
                                    \<lparr>video_id = [],
                                     title = ''Video from '' @ (case plat of Some p \<Rightarrow> p | None \<Rightarrow> ''null''),
                                     fileName = ''video.mp4'',
                                     fileKey = key,
                                     fileSize = finalSize,
                                     mimeType = ctype,
                                     video_status = ''COMPLETED'',
                                     platform = plat,
                                     originalUrl = reqUrl\<rparr> w3 of
                               (Inl err, w4) \<Rightarrow> (Inl err, w4)
                             | (Inr video, w4) \<Rightarrow>
                                 (Inr \<lparr>reply_status = 200, reply_error = None,
                                       reply_video = Some video,
                                       reply_originalSize = None,
                                       reply_compressionSaved = None\<rparr>, w4))))))"

definition POST_tunnel ::
  "env \<Rightarrow> string \<Rightarrow> string option \<Rightarrow> bool \<Rightarrow> string \<Rightarrow> string \<Rightarrow> world
     \<Rightarrow> (js_error + http_reply) \<times> world" where
  "POST_tunnel e reqUrl plat shouldCompress downloadUrl filename w =
     (case downloadFromUrl e downloadUrl w of
        (Inl err, w1) \<Rightarrow> (Inl err, w1)
      | (Inr dl, w1) \<Rightarrow>
          (let origSize = int (length (buffer dl))
           in case compress_step e shouldCompress (buffer dl) (contentType dl) w1 of
                ((buf, finalSize, ctype), w2) \<Rightarrow>
                  (let compressedFilename = replace_ext ''.mp4'' filename;
                       key = generateFileKey (now e) (random36 e) compressedFilename
                   in case uploadFile e key buf ctype w2 of
                        (Inl err, w3) \<Rightarrow> (Inl err, w3)
                      | (Inr _, w3) \<Rightarrow>
                          (case create_video e
                                  \<lparr>video_id = [],
                                   title = extractTitleFromFilename (unicode_upper e) filename,
                                   fileName = compressedFilename,
                                   fileKey = key,
                                   fileSize = finalSize,
                                   mimeType = ctype,
                                   video_status = ''COMPLETED'',
                                   platform = plat,
                                   originalUrl = reqUrl\<rparr> w3 of
                             (Inl err, w4) \<Rightarrow> (Inl err, w4)
                           | (Inr video, w4) \<Rightarrow>
                               (Inr \<lparr>reply_status = 200, reply_error = None,
                                     reply_video = Some video,
                                     reply_originalSize = Some origSize,
                                     reply_compressionSaved = Some (origSize - finalSize)\<rparr>,
                                w4)))))"

text \<open>The \<open>try\<close> block of \<open>POST\<close>.\<close>

definition POST_try :: "env \<Rightarrow> world \<Rightarrow> (js_error + http_reply) \<times> world" where
  "POST_try e w =
     (case request_json e of
        Inl err \<Rightarrow> (Inl err, w)
      | Inr request \<Rightarrow>
          (if req_url request = None \<or> req_url request = Some []
           then (Inr (json_error 400 ''URL is required''), w)
           else
             (let reqUrl = the (req_url request)
              in if \<not> isUrlSupported reqUrl
                 then (Inr (json_error 400
                         ''URL is not supported. Try YouTube, TikTok, Instagram, or LinkedIn.''), w)
                 else
                   (let plat = detectPlatform reqUrl;
                        shouldCompress = (req_compress request \<noteq> Some False \<and> COMPRESSION_ENABLED e)
                    in case requestDownload e
                              \<lparr>url = reqUrl,
                               videoQuality = Some (or_default (req_videoQuality request) ''1080''),
                               audioFormat = None,
                               audioBitrate = None,
                               downloadMode = Some (or_default (req_downloadMode request) ''auto''),
                               filenameStyle = None,
                               youtubeVideoCodec = None\<rparr> w of
                         (Inl err, w1) \<Rightarrow> (Inl err, w1)
                       | (Inr cobaltResponse, w1) \<Rightarrow>
                           (case cobaltResponse of
                              CobaltErrorResponse code service \<Rightarrow>
                                (Inr (json_error 400 (''Download failed: '' @ code)), w1)
                            | CobaltPickerResponse picker \<Rightarrow>
                                POST_picker e reqUrl plat shouldCompress picker w1
                            | CobaltTunnelResponse st downloadUrl filename \<Rightarrow>
                                POST_tunnel e reqUrl plat shouldCompress downloadUrl filename w1
                            | CobaltUnknownResponse st \<Rightarrow>
                                (Inr (json_error 500 ''Unexpected response from download service''), w1))))))"

text \<open>
  \<open>POST\<close>: the \<open>catch\<close> turns every error of the \<open>try\<close> block into a reply with status 500
  and the error's message.
\<close>

definition POST :: "env \<Rightarrow> world \<Rightarrow> http_reply \<times> world" where
  "POST e w =
     (case POST_try e w of
        (Inr reply, w') \<Rightarrow> (reply, w')
      | (Inl err, w') \<Rightarrow>
          (json_error 500 (case err of Error msg \<Rightarrow> msg | NonError \<Rightarrow> ''Download failed''), w'))"

section \<open>A sample run\<close>

text \<open>
  The scenario of the specification: a YouTube URL, a resolution service that answers with
  a tunnel to \<open>My_Video-Clip.mp4\<close>, a media host that serves four bytes, an encoder that
  leaves two, a bucket and a table that accept what they are given. The three runtime
  tables are stand-ins; no input of the sample runs reaches them.
\<close>

definition ok_response :: "'b \<Rightarrow> 'b http_response" where
  "ok_response b =
     \<lparr>ok = True, status = 200, statusText = ''OK'', header_content_type = Some ''video/webm'',
      header_content_length = None, body = Inr b\<rparr>"

definition sample_world :: world where
  "sample_world = \<lparr>requests = [], bucket = Map.empty, video_table = [], tmp_files = Map.empty\<rparr>"

definition sample_env :: env where
  "sample_env =
     \<lparr>COBALT_API_URL = ''http://cobalt:9000'',
      COMPRESSION_ENABLED = True,
      request_json = Inr \<lparr>req_url = Some ''https://www.youtube.com/watch?v=abc'',
                          req_videoQuality = Some ''720'',
                          req_downloadMode = None,
                          req_compress = Some True\<rparr>,
      cobalt_fetch = (\<lambda>sent. Inr (ok_response
                        (CobaltTunnelResponse Tunnel ''https://cdn/example.mp4'' ''My_Video-Clip.mp4''))),
      media_fetch = (\<lambda>u. Inr (ok_response [1, 2, 3, 4])),
      ffmpeg_version = Closed (Some 0) [],
      tmpdir = ''/tmp'',
      uuid_input = ''in-1'',
      uuid_output = ''out-2'',
      write_input = WriteOk,
      ffmpeg_run = Closed (Some 0) [],
      ffmpeg_output = Some [9, 9],
      read_output_error = None,
      unlink_fails = {},
      now = 1700000000000,
      random36 = ''0.k3j9x2m1q8z'',
      put_object = None,
      video_create = Inr ''vid1'',
      unicode_upper = (\<lambda>c. [c]),
      large_number = (\<lambda>v. if v < 0 then NegInfinity else Infinity),
      inherited_text = (\<lambda>k. ''[object Object]'')\<rparr>"

text \<open>The sample environment with a media host that sends three bytes and the given
  content-length header.\<close>

definition media_env :: "string option \<Rightarrow> env" where
  "media_env h =
     sample_env\<lparr>media_fetch := (\<lambda>u. Inr ((ok_response [1, 2, 3])\<lparr>header_content_length := h\<rparr>))\<rparr>"

text \<open>The sample environment with an encoder that exits with code 1.\<close>

definition failing_encoder_env :: env where
  "failing_encoder_env = sample_env\<lparr>ffmpeg_run := Closed (Some 1) ''Conversion failed!''\<rparr>"

text \<open>The encoder run fails: it cannot be spawned or closes with a code other than 0.\<close>

definition encoder_fails :: "env \<Rightarrow> bool" where
  "encoder_fails e =
     (case ffmpeg_run e of
        SpawnFailed msg \<Rightarrow> True
      | Closed code stderr \<Rightarrow> code \<noteq> Some 0)"

text \<open>The sample environment with a resolution service that answers 502.\<close>

definition bad_gateway_env :: env where
  "bad_gateway_env =
     sample_env\<lparr>cobalt_fetch := (\<lambda>sent. Inr \<lparr>ok = False, status = 502, statusText = ''Bad Gateway'',
                                               header_content_type = None,
                                               header_content_length = None,
                                               body = Inl (Error ''Unexpected end of JSON input'')\<rparr>)\<rparr>"

definition sample_options :: CobaltDownloadOptions where
  "sample_options =
     \<lparr>url = ''https://www.youtube.com/watch?v=abc'', videoQuality = Some ''720'',
      audioFormat = None, audioBitrate = None, downloadMode = Some ''auto'',
      filenameStyle = None, youtubeVideoCodec = None\<rparr>"

text \<open>The media host does not deliver the resource at a URL: the request is rejected, the
  response is not successful, or its body cannot be read.\<close>

definition download_fails :: "env \<Rightarrow> string \<Rightarrow> bool" where
  "download_fails e u =
     (case media_fetch e u of
        Inl err \<Rightarrow> True
      | Inr response \<Rightarrow> \<not> ok response \<or> isl (body response))"

text \<open>The sample environment with a resolution service that suggests the file name
  \<open>video\<close>, without an extension.\<close>

definition extensionless_env :: env where
  "extensionless_env =
     sample_env\<lparr>cobalt_fetch := (\<lambda>sent. Inr (ok_response
                      (CobaltTunnelResponse Tunnel ''https://cdn/example'' ''video'')))\<rparr>"

text \<open>The sample environment with a resolution service that offers a picker.\<close>

definition picker_env :: "picker_item list \<Rightarrow> env" where
  "picker_env items =
     sample_env\<lparr>cobalt_fetch := (\<lambda>sent. Inr (ok_response (CobaltPickerResponse items)))\<rparr>"

section \<open>Decimal digits\<close>


lemma below_ten: "(d::nat) < 10 \<longleftrightarrow> d \<in> {0, 1, 2, 3, 4, 5, 6, 7, 8, 9}"
  by auto

lemma digit_val_digit_char: "d < 10 \<Longrightarrow> digit_val (digit_char d) = d"
  unfolding below_ten by (auto simp: digit_char_def digit_val_def)

lemma is_digit_digit_char: "d < 10 \<Longrightarrow> is_digit (digit_char d)"
  unfolding below_ten by (auto simp: digit_char_def is_digit_def)

lemma digits_all_digits: "list_all is_digit (digits n)"
proof (induction n rule: digits.induct)
  case (1 n)
  show ?case
  proof (cases "n < 10")
    case True
    then show ?thesis by (simp add: digits.simps [of n] is_digit_digit_char)
  next
    case False
    with 1 show ?thesis by (simp add: digits.simps [of n] is_digit_digit_char)
  qed
qed

lemma digits_nonempty: "digits n \<noteq> []"
  by (simp add: digits.simps [of n])

lemma decimal_value_digits: "decimal_value (digits n) = n"
proof (induction n rule: digits.induct)
  case (1 n)
  show ?case
  proof (cases "n < 10")
    case True
    then show ?thesis by (simp add: decimal_value_def digits.simps [of n] digit_val_digit_char)
  next
    case False
    with 1 show ?thesis
      by (simp add: decimal_value_def digits.simps [of n] digit_val_digit_char)
  qed
qed

lemma digits_inject: "digits a = digits b \<Longrightarrow> a = b"
  by (metis decimal_value_digits)

lemma digit_not_space: "is_digit c \<Longrightarrow> \<not> is_space c"
  by (auto simp: is_digit_def is_space_def)

lemma digit_not_sign: "is_digit c \<Longrightarrow> c \<noteq> CHR ''-'' \<and> c \<noteq> CHR ''+''"
  by (auto simp: is_digit_def)

lemma takeWhile_all: "list_all P xs \<Longrightarrow> takeWhile P xs = xs"
  by (induction xs) auto

lemma parseInt10_numeric:
  assumes "h \<noteq> []" and "list_all is_digit h" and "decimal_value h < 2 ^ 53"
  shows "parseInt10 large h = Num (int (decimal_value h))"
proof -
  obtain c cs where cs: "h = c # cs"
    using assms(1) by (cases h) auto
  have c: "is_digit c" using assms(2) cs by simp
  have dw: "dropWhile is_space h = h"
    using c cs digit_not_space by simp
  have tw: "takeWhile is_digit h = h"
    using assms(2) by (rule takeWhile_all)
  have "int (decimal_value h) < 2 ^ 53"
    using assms(3) by (metis of_nat_less_iff of_nat_numeral of_nat_power)
  then have small: "\<bar>int (decimal_value h)\<bar> < 2 ^ 53" by simp
  have sign: "hd h \<noteq> CHR ''-''" "hd h \<noteq> CHR ''+''"
    using digit_not_sign [OF c] cs by simp_all
  show ?thesis
    unfolding parseInt10_def Let_def dw
    using sign assms(1) small by (simp add: tw)
qed

lemma parseInt10_digits:
  assumes "n < 2 ^ 53"
  shows "parseInt10 large (digits n) = Num (int n)"
  using parseInt10_numeric [of "digits n" large] assms
  by (simp add: digits_nonempty digits_all_digits decimal_value_digits)


section \<open>Storage keys\<close>


lemma split_from_nonempty: "split_from sep piece s \<noteq> []"
  by (induction s arbitrary: piece) auto

lemma split_nonempty: "split sep s \<noteq> []"
  by (simp add: split_def split_from_nonempty)

lemma split_from_pieces_free:
  "sep \<notin> set piece \<Longrightarrow> x \<in> set (split_from sep piece s) \<Longrightarrow> sep \<notin> set x"
proof (induction s arbitrary: piece)
  case Nil
  then show ?case by simp
next
  case (Cons c cs)
  show ?case
  proof (cases "c = sep")
    case True
    with Cons.prems have "x = piece \<or> x \<in> set (split_from sep [] cs)" by simp
    then show ?thesis
      using Cons.prems(1) Cons.IH [of "[]"] by auto
  next
    case False
    with Cons.prems have "x \<in> set (split_from sep (piece @ [c]) cs)" by simp
    moreover from False Cons.prems(1) have "sep \<notin> set (piece @ [c])" by simp
    ultimately show ?thesis by (rule Cons.IH [rotated])
  qed
qed

lemma split_pieces_free: "piece \<in> set (split sep s) \<Longrightarrow> sep \<notin> set piece"
  unfolding split_def using split_from_pieces_free [of sep "[]" piece s] by simp

lemma pop_split: "pop (split sep s) = Some (last (split sep s))"
  by (simp add: pop_def split_nonempty)

lemma last_split_free: "sep \<notin> set (last (split sep s))"
  using split_pieces_free [of "last (split sep s)" sep s] split_nonempty [of sep s]
  by simp

lemma append_sep_inject:
  "c \<notin> set xs \<Longrightarrow> c \<notin> set xs' \<Longrightarrow> xs @ c # ys = xs' @ c # ys' \<Longrightarrow> xs = xs' \<and> ys = ys'"
proof (induction xs arbitrary: xs')
  case Nil
  then show ?case by (cases xs') auto
next
  case (Cons x xs)
  then show ?case by (cases xs') auto
qed

lemma dash_not_digit: "CHR ''-'' \<notin> set (digits n)"
proof
  assume "CHR ''-'' \<in> set (digits n)"
  with digits_all_digits [of n] have "is_digit CHR ''-''"
    by (simp add: list_all_iff)
  then show False by (simp add: is_digit_def)
qed

lemma key_inject:
  assumes r1: "CHR ''.'' \<notin> set r1" and r2: "CHR ''.'' \<notin> set r2"
    and eq: "''videos/'' @ digits t1 @ ''-'' @ r1 @ ''.'' @ x1 = ''videos/'' @ digits t2 @ ''-'' @ r2 @ ''.'' @ x2"
  shows "t1 = t2 \<and> r1 = r2 \<and> x1 = x2"
proof -
  from eq have "digits t1 @ CHR ''-'' # (r1 @ ''.'' @ x1) = digits t2 @ CHR ''-'' # (r2 @ ''.'' @ x2)"
    by simp
  from append_sep_inject [OF dash_not_digit dash_not_digit this]
  have d: "digits t1 = digits t2" and rest: "r1 @ CHR ''.'' # x1 = r2 @ CHR ''.'' # x2"
    by simp_all
  from append_sep_inject [OF r1 r2 rest] digits_inject [OF d]
  show ?thesis by simp
qed



text \<open>
  A key determines the clock reading, the random string and the extension it was built
  from, so two keys are equal only when all three are.
\<close>

lemma generateFileKey_equal_iff:
  assumes "CHR ''.'' \<notin> set (substring 2 15 r1)" and "CHR ''.'' \<notin> set (substring 2 15 r2)"
  shows "generateFileKey t1 r1 f1 = generateFileKey t2 r2 f2 \<longleftrightarrow>
         t1 = t2 \<and> substring 2 15 r1 = substring 2 15 r2
         \<and> last (split CHR ''.'' f1) = last (split CHR ''.'' f2)"
proof
  assume "generateFileKey t1 r1 f1 = generateFileKey t2 r2 f2"
  then have "''videos/'' @ digits t1 @ ''-'' @ substring 2 15 r1 @ ''.'' @ last (split CHR ''.'' f1)
           = ''videos/'' @ digits t2 @ ''-'' @ substring 2 15 r2 @ ''.'' @ last (split CHR ''.'' f2)"
    by (simp only: generateFileKey_def Let_def pop_split option.case)
  from key_inject [OF assms this]
  show "t1 = t2 \<and> substring 2 15 r1 = substring 2 15 r2
         \<and> last (split CHR ''.'' f1) = last (split CHR ''.'' f2)" .
next
  assume "t1 = t2 \<and> substring 2 15 r1 = substring 2 15 r2
         \<and> last (split CHR ''.'' f1) = last (split CHR ''.'' f2)"
  then show "generateFileKey t1 r1 f1 = generateFileKey t2 r2 f2"
    by (simp only: generateFileKey_def Let_def pop_split option.case)
qed

text \<open>
  Claim C9, evaluated where the code departs from it. Two acquisitions, of \<open>clip.mp4\<close> and
  of \<open>video.mp4\<close>, generate their keys in the same millisecond and draw the same random
  number, here 0.5, whose text in base 36 is \<open>0.i\<close>. Both receive the key
  \<open>videos/1700000000000-i.mp4\<close>: only the clock reading and the random draw tell two keys
  apart, and nothing makes the draws of two invocations differ.
\<close>

theorem generateFileKey_collision:
  "generateFileKey 1700000000000 ''0.i'' ''clip.mp4'' = ''videos/1700000000000-i.mp4''
   \<and> generateFileKey 1700000000000 ''0.i'' ''video.mp4'' = ''videos/1700000000000-i.mp4''"
  by (simp add: generateFileKey_def substring_def pop_def split_def digits.simps digit_char_def)


section \<open>Titles\<close>


lemma ext_match_here_append:
  "ext_match_here (c # rest @ CHR ''.'' # ext) = False"
  by (simp add: ext_match_here_def)


lemma replace_ext_no_dot: "CHR ''.'' \<notin> set s \<Longrightarrow> replace_ext r s = s"
  by (induction s) (auto simp: ext_match_here_def)



lemma replace_separators_nth:
  "length (replace_separators s) = length s \<and>
   (\<forall>i < length s. replace_separators s ! i =
      (if s ! i = CHR ''_'' \<or> s ! i = CHR ''-'' then CHR '' '' else s ! i))"
  by (simp add: replace_separators_def)


section \<open>Platform detection\<close>


lemma match_here_iff:
  "match_here a s \<longleftrightarrow> (\<exists>mid post. s = mid @ post \<and> map toUpperCase mid = map toUpperCase a)"
proof (induction a s rule: match_here.induct)
  case (1 s)
  then show ?case by simp
next
  case (2 p ps)
  then show ?case by simp
next
  case (3 p ps c cs)
  show ?case
  proof
    assume "match_here (p # ps) (c # cs)"
    then have c: "toUpperCase c = toUpperCase p" and "match_here ps cs" by simp_all
    with 3 obtain mid post where "cs = mid @ post" "map toUpperCase mid = map toUpperCase ps"
      by blast
    with c have "c # cs = (c # mid) @ post \<and> map toUpperCase (c # mid) = map toUpperCase (p # ps)"
      by simp
    then show "\<exists>mid post. c # cs = mid @ post \<and> map toUpperCase mid = map toUpperCase (p # ps)"
      by blast
  next
    assume "\<exists>mid post. c # cs = mid @ post \<and> map toUpperCase mid = map toUpperCase (p # ps)"
    then obtain mid post where m: "c # cs = mid @ post" "map toUpperCase mid = map toUpperCase (p # ps)"
      by blast
    from m(2) obtain m0 ms where mid: "mid = m0 # ms" by (cases mid) auto
    with m have "c = m0" "cs = ms @ post" "toUpperCase m0 = toUpperCase p"
      "map toUpperCase ms = map toUpperCase ps" by simp_all
    with 3 show "match_here (p # ps) (c # cs)" by auto
  qed
qed

lemma match_alternatives_iff:
  "match_alternatives alts s \<longleftrightarrow>
     (\<exists>a \<in> set alts. \<exists>mid post. s = mid @ post \<and> map toUpperCase mid = map toUpperCase a)"
  by (simp add: match_alternatives_def list_ex_iff match_here_iff)

lemma regex_test_iff:
  "regex_test alts s \<longleftrightarrow>
     (\<exists>a \<in> set alts. \<exists>pre mid post. s = pre @ mid @ post \<and> map toUpperCase mid = map toUpperCase a)"
proof (induction s)
  case Nil
  show ?case by (auto simp: match_alternatives_iff)
next
  case (Cons c cs)
  show ?case
  proof
    assume "regex_test alts (c # cs)"
    then consider "match_alternatives alts (c # cs)" | "regex_test alts cs" by auto
    then show "\<exists>a \<in> set alts. \<exists>pre mid post. c # cs = pre @ mid @ post \<and> map toUpperCase mid = map toUpperCase a"
    proof cases
      case 1
      then obtain a mid post where "a \<in> set alts" "c # cs = [] @ mid @ post"
        "map toUpperCase mid = map toUpperCase a"
        by (auto simp: match_alternatives_iff)
      then show ?thesis by blast
    next
      case 2
      with Cons obtain a pre mid post where "a \<in> set alts" "cs = pre @ mid @ post"
        "map toUpperCase mid = map toUpperCase a" by blast
      then have "a \<in> set alts \<and> c # cs = (c # pre) @ mid @ post \<and> map toUpperCase mid = map toUpperCase a"
        by simp
      then show ?thesis by blast
    qed
  next
    assume "\<exists>a \<in> set alts. \<exists>pre mid post. c # cs = pre @ mid @ post \<and> map toUpperCase mid = map toUpperCase a"
    then obtain a pre mid post where a: "a \<in> set alts" and s: "c # cs = pre @ mid @ post"
      and m: "map toUpperCase mid = map toUpperCase a" by blast
    show "regex_test alts (c # cs)"
    proof (cases pre)
      case Nil
      with a s m have "match_alternatives alts (c # cs)"
        unfolding match_alternatives_iff by auto
      then show ?thesis by simp
    next
      case (Cons p ps)
      with s have "cs = ps @ mid @ post" by simp
      with a m Cons.IH have "regex_test alts cs" by blast
      then show ?thesis by simp
    qed
  qed
qed

lemma detect_in_None: "detect_in ps u = None \<longleftrightarrow> (\<forall>p \<in> set ps. \<not> regex_test (pattern p) u)"
  by (induction ps) auto

lemma detect_in_Some:
  "detect_in ps u = Some n \<longleftrightarrow>
     (\<exists>i < length ps. name (ps ! i) = n \<and> regex_test (pattern (ps ! i)) u
        \<and> (\<forall>j < i. \<not> regex_test (pattern (ps ! j)) u))"
proof (induction ps)
  case Nil
  show ?case by simp
next
  case (Cons p ps)
  show ?case
  proof (cases "regex_test (pattern p) u")
    case True
    have "(\<exists>i < length (p # ps). name ((p # ps) ! i) = n \<and> regex_test (pattern ((p # ps) ! i)) u
        \<and> (\<forall>j < i. \<not> regex_test (pattern ((p # ps) ! j)) u)) \<longleftrightarrow> name p = n"
    proof
      assume "\<exists>i < length (p # ps). name ((p # ps) ! i) = n \<and> regex_test (pattern ((p # ps) ! i)) u
        \<and> (\<forall>j < i. \<not> regex_test (pattern ((p # ps) ! j)) u)"
      then obtain i where i: "name ((p # ps) ! i) = n" "\<forall>j < i. \<not> regex_test (pattern ((p # ps) ! j)) u"
        by blast
      have "i = 0"
      proof (rule ccontr)
        assume "i \<noteq> 0"
        then have "0 < i" by simp
        with i(2) have "\<not> regex_test (pattern ((p # ps) ! 0)) u" by blast
        with True show False by simp
      qed
      with i show "name p = n" by simp
    next
      assume "name p = n"
      with True have "0 < length (p # ps) \<and> name ((p # ps) ! 0) = n \<and> regex_test (pattern ((p # ps) ! 0)) u
        \<and> (\<forall>j < 0. \<not> regex_test (pattern ((p # ps) ! j)) u)" by simp
      then show "\<exists>i < length (p # ps). name ((p # ps) ! i) = n \<and> regex_test (pattern ((p # ps) ! i)) u
        \<and> (\<forall>j < i. \<not> regex_test (pattern ((p # ps) ! j)) u)" by blast
    qed
    with True show ?thesis by auto
  next
    case False
    have "(\<exists>i < length (p # ps). name ((p # ps) ! i) = n \<and> regex_test (pattern ((p # ps) ! i)) u
        \<and> (\<forall>j < i. \<not> regex_test (pattern ((p # ps) ! j)) u)) \<longleftrightarrow>
      (\<exists>i < length ps. name (ps ! i) = n \<and> regex_test (pattern (ps ! i)) u
        \<and> (\<forall>j < i. \<not> regex_test (pattern (ps ! j)) u))" (is "?L \<longleftrightarrow> ?R")
    proof
      assume ?L
      then obtain i where i: "i < length (p # ps)" "name ((p # ps) ! i) = n"
        "regex_test (pattern ((p # ps) ! i)) u" "\<forall>j < i. \<not> regex_test (pattern ((p # ps) ! j)) u"
        by blast
      with False obtain k where k: "i = Suc k" by (cases i) auto
      have "\<forall>j < k. \<not> regex_test (pattern (ps ! j)) u"
      proof (intro allI impI)
        fix j assume "j < k"
        then have "Suc j < i" using k by simp
        with i(4) have "\<not> regex_test (pattern ((p # ps) ! Suc j)) u" by blast
        then show "\<not> regex_test (pattern (ps ! j)) u" by simp
      qed
      with i k have "k < length ps \<and> name (ps ! k) = n \<and> regex_test (pattern (ps ! k)) u
        \<and> (\<forall>j < k. \<not> regex_test (pattern (ps ! j)) u)" by simp
      then show ?R by blast
    next
      assume ?R
      then obtain k where k: "k < length ps" "name (ps ! k) = n" "regex_test (pattern (ps ! k)) u"
        "\<forall>j < k. \<not> regex_test (pattern (ps ! j)) u" by blast
      have "\<forall>j < Suc k. \<not> regex_test (pattern ((p # ps) ! j)) u"
      proof (intro allI impI)
        fix j assume j: "j < Suc k"
        show "\<not> regex_test (pattern ((p # ps) ! j)) u"
        proof (cases j)
          case 0
          with False show ?thesis by simp
        next
          case (Suc m)
          with j k(4) show ?thesis by simp
        qed
      qed
      with k have "Suc k < length (p # ps) \<and> name ((p # ps) ! Suc k) = n
        \<and> regex_test (pattern ((p # ps) ! Suc k)) u
        \<and> (\<forall>j < Suc k. \<not> regex_test (pattern ((p # ps) ! j)) u)" by simp
      then show ?L by blast
    qed
    with False Cons show ?thesis by simp
  qed
qed




lemma platform_names:
  "map name SUPPORTED_PLATFORMS =
     [''YouTube'', ''TikTok'', ''Instagram'', ''LinkedIn'', ''Twitter/X'', ''Vimeo'']"
  by (simp add: SUPPORTED_PLATFORMS_def)

lemma platform_domains:
  "concat (map pattern SUPPORTED_PLATFORMS) =
     [''youtube.com'', ''youtu.be'', ''tiktok.com'', ''instagram.com'', ''linkedin.com'',
      ''twitter.com'', ''x.com'', ''vimeo.com'']"
  by (simp add: SUPPORTED_PLATFORMS_def)

lemma domain_anywhere_supported:
  assumes d: "d \<in> set (concat (map pattern SUPPORTED_PLATFORMS))"
    and m: "map toUpperCase mid = map toUpperCase d"
  shows "isUrlSupported (pre @ mid @ post)"
proof -
  from d obtain p where p: "p \<in> set SUPPORTED_PLATFORMS" "d \<in> set (pattern p)"
    by auto
  from p(2) m have "regex_test (pattern p) (pre @ mid @ post)"
    unfolding regex_test_iff by blast
  with p(1) have "detect_in SUPPORTED_PLATFORMS (pre @ mid @ post) \<noteq> None"
    unfolding detect_in_None by blast
  then show ?thesis by (simp add: isUrlSupported_def detectPlatform_def)
qed

text \<open>
  Claim C10. Platform detection tests the six patterns in their declaration order
  (YouTube, TikTok, Instagram, LinkedIn, Twitter/X, Vimeo) and returns the name of the
  first one that matches, \<open>null\<close> when none does; a pattern matches when one of its domain
  literals occurs anywhere in the input, letter case ignored. So a string that holds a
  platform domain anywhere is a supported URL, and a string that matches several patterns
  is classified as the earliest of them.
\<close>

theorem detectPlatform_first_match:
  "map name SUPPORTED_PLATFORMS =
     [''YouTube'', ''TikTok'', ''Instagram'', ''LinkedIn'', ''Twitter/X'', ''Vimeo'']
   \<and> (detectPlatform u = None \<longleftrightarrow> (\<forall>p \<in> set SUPPORTED_PLATFORMS. \<not> regex_test (pattern p) u))
   \<and> (detectPlatform u = Some n \<longleftrightarrow>
        (\<exists>i < length SUPPORTED_PLATFORMS.
            name (SUPPORTED_PLATFORMS ! i) = n \<and> regex_test (pattern (SUPPORTED_PLATFORMS ! i)) u
            \<and> (\<forall>j < i. \<not> regex_test (pattern (SUPPORTED_PLATFORMS ! j)) u)))
   \<and> (\<forall>p \<in> set SUPPORTED_PLATFORMS.
         regex_test (pattern p) u \<longleftrightarrow>
           (\<exists>a \<in> set (pattern p). \<exists>pre mid post.
               u = pre @ mid @ post \<and> map toUpperCase mid = map toUpperCase a))
   \<and> (\<forall>d mid pre post.
         d \<in> set [''youtube.com'', ''youtu.be'', ''tiktok.com'', ''instagram.com'',
                   ''linkedin.com'', ''twitter.com'', ''x.com'', ''vimeo.com'']
         \<and> map toUpperCase mid = map toUpperCase d
         \<longrightarrow> isUrlSupported (pre @ mid @ post))"
proof -
  have a: "detectPlatform u = None \<longleftrightarrow> (\<forall>p \<in> set SUPPORTED_PLATFORMS. \<not> regex_test (pattern p) u)"
    unfolding detectPlatform_def by (rule detect_in_None)
  have b: "detectPlatform u = Some n \<longleftrightarrow>
        (\<exists>i < length SUPPORTED_PLATFORMS.
            name (SUPPORTED_PLATFORMS ! i) = n \<and> regex_test (pattern (SUPPORTED_PLATFORMS ! i)) u
            \<and> (\<forall>j < i. \<not> regex_test (pattern (SUPPORTED_PLATFORMS ! j)) u))"
    unfolding detectPlatform_def by (rule detect_in_Some)
  have c: "\<forall>p \<in> set SUPPORTED_PLATFORMS.
         regex_test (pattern p) u \<longleftrightarrow>
           (\<exists>a \<in> set (pattern p). \<exists>pre mid post.
               u = pre @ mid @ post \<and> map toUpperCase mid = map toUpperCase a)"
    using regex_test_iff by blast
  have d: "\<forall>d mid pre post.
         d \<in> set [''youtube.com'', ''youtu.be'', ''tiktok.com'', ''instagram.com'',
                   ''linkedin.com'', ''twitter.com'', ''x.com'', ''vimeo.com'']
         \<and> map toUpperCase mid = map toUpperCase d
         \<longrightarrow> isUrlSupported (pre @ mid @ post)"
    using domain_anywhere_supported unfolding platform_domains by blast
  from platform_names a b c d show ?thesis by blast
qed

lemma upper_example: "map toUpperCase ''Vimeo.COM'' = map toUpperCase ''vimeo.com''"
  by (simp add: toUpperCase_def lower_letters_def upper_letters_def)

theorem detectPlatform_first_match_witness:
  "''vimeo.com'' \<in> set [''youtube.com'', ''youtu.be'', ''tiktok.com'', ''instagram.com'',
                   ''linkedin.com'', ''twitter.com'', ''x.com'', ''vimeo.com'']
   \<and> map toUpperCase ''Vimeo.COM'' = map toUpperCase ''vimeo.com''
   \<and> isUrlSupported (''https://example.org/go?to='' @ ''Vimeo.COM'' @ ''/123'')
   \<and> regex_test (pattern (SUPPORTED_PLATFORMS ! 5)) ''https://vimeo.com/1?ref=YouTube.com''
   \<and> regex_test (pattern (SUPPORTED_PLATFORMS ! 0)) ''https://vimeo.com/1?ref=YouTube.com''
   \<and> detectPlatform ''https://vimeo.com/1?ref=YouTube.com'' = Some ''YouTube''"
proof -
  let ?u = "''https://vimeo.com/1?ref=YouTube.com''"
  have h1: "''vimeo.com'' \<in> set [''youtube.com'', ''youtu.be'', ''tiktok.com'', ''instagram.com'',
                   ''linkedin.com'', ''twitter.com'', ''x.com'', ''vimeo.com'']" by simp
  note h2 = upper_example
  note inst = detectPlatform_first_match [of ?u "''YouTube''"]
  have anywhere: "\<forall>d mid pre post.
         d \<in> set [''youtube.com'', ''youtu.be'', ''tiktok.com'', ''instagram.com'',
                   ''linkedin.com'', ''twitter.com'', ''x.com'', ''vimeo.com'']
         \<and> map toUpperCase mid = map toUpperCase d
         \<longrightarrow> isUrlSupported (pre @ mid @ post)"
    and first: "detectPlatform ?u = Some ''YouTube'' \<longleftrightarrow>
        (\<exists>i < length SUPPORTED_PLATFORMS.
            name (SUPPORTED_PLATFORMS ! i) = ''YouTube'' \<and> regex_test (pattern (SUPPORTED_PLATFORMS ! i)) ?u
            \<and> (\<forall>j < i. \<not> regex_test (pattern (SUPPORTED_PLATFORMS ! j)) ?u))"
    using inst [THEN conjunct2, THEN conjunct2, THEN conjunct2, THEN conjunct2]
      inst [THEN conjunct2, THEN conjunct2, THEN conjunct1]
    by - assumption+
  from anywhere h1 h2 have s: "isUrlSupported (''https://example.org/go?to='' @ ''Vimeo.COM'' @ ''/123'')"
    by blast
  have v: "regex_test (pattern (SUPPORTED_PLATFORMS ! 5)) ?u" by code_simp
  have y: "regex_test (pattern (SUPPORTED_PLATFORMS ! 0)) ?u" by code_simp
  have "0 < length SUPPORTED_PLATFORMS \<and> name (SUPPORTED_PLATFORMS ! 0) = ''YouTube''
        \<and> regex_test (pattern (SUPPORTED_PLATFORMS ! 0)) ?u
        \<and> (\<forall>j < 0. \<not> regex_test (pattern (SUPPORTED_PLATFORMS ! j)) ?u)"
    using y by (simp add: SUPPORTED_PLATFORMS_def)
  then have "\<exists>i < length SUPPORTED_PLATFORMS.
            name (SUPPORTED_PLATFORMS ! i) = ''YouTube'' \<and> regex_test (pattern (SUPPORTED_PLATFORMS ! i)) ?u
            \<and> (\<forall>j < i. \<not> regex_test (pattern (SUPPORTED_PLATFORMS ! j)) ?u)"
    by blast
  with first have "detectPlatform ?u = Some ''YouTube''" by simp
  with h1 h2 s v y show ?thesis by blast
qed


section \<open>Content length of a download\<close>

lemma parseInt10_zero: "parseInt10 large ''0'' = Num 0"
  by (simp add: parseInt10_def is_space_def is_digit_def digit_val_def decimal_value_def)

lemma content_length_header:
  "parseInt10 large (or_default h ''0'') =
     (case h of None \<Rightarrow> Num 0 | Some x \<Rightarrow> if x = [] then Num 0 else parseInt10 large x)"
  by (simp add: or_default_def parseInt10_zero split: option.splits)

lemma downloadFromUrl_ok:
  assumes "media_fetch e u = Inr response" and "ok response" and "body response = Inr buf"
  shows "fst (downloadFromUrl e u w) =
           Inr \<lparr>buffer = buf,
                contentType = or_default (header_content_type response) ''video/mp4'',
                contentLength =
                  (case parseInt10 (large_number e) (or_default (header_content_length response) ''0'') of
                     Num n \<Rightarrow> if n = 0 then Num (int (length buf)) else Num n
                   | NaN \<Rightarrow> Num (int (length buf))
                   | Infinity \<Rightarrow> Infinity
                   | NegInfinity \<Rightarrow> NegInfinity)\<rparr>"
  using assms by (simp add: downloadFromUrl_def Let_def)

text \<open>
  Claim C7. For a successful upstream response whose body is retrieved, the returned
  content length is the value of the content-length header when the header is present and
  numeric: a run of decimal digits, as an HTTP client delivers it, with a value below
  \<open>2^53\<close> and zero only together with an empty body. When the header is absent, empty or
  not a number, it is the measured byte length of the body, so that a body that is not
  empty is never reported with the length zero.
\<close>

theorem downloadFromUrl_contentLength:
  assumes "media_fetch e u = Inr response" and "ok response" and "body response = Inr buf"
  shows "\<exists>r. fst (downloadFromUrl e u w) = Inr r \<and> buffer r = buf
      \<and> (\<forall>h. header_content_length response = Some h \<and> h \<noteq> [] \<and> list_all is_digit h
              \<and> decimal_value h < 2 ^ 53 \<and> (decimal_value h = 0 \<longrightarrow> buf = [])
              \<longrightarrow> contentLength r = Num (int (decimal_value h)))
      \<and> (header_content_length response = None \<longrightarrow> contentLength r = Num (int (length buf)))
      \<and> (\<forall>h. header_content_length response = Some h
              \<and> (h = [] \<or> parseInt10 (large_number e) h = NaN)
              \<longrightarrow> contentLength r = Num (int (length buf)))
      \<and> ((header_content_length response = None
           \<or> (\<exists>h. header_content_length response = Some h
                  \<and> (h = [] \<or> parseInt10 (large_number e) h = NaN)))
          \<and> buf \<noteq> []
          \<longrightarrow> contentLength r \<noteq> Num 0)"
proof -
  let ?len = "case parseInt10 (large_number e) (or_default (header_content_length response) ''0'') of
                Num n \<Rightarrow> if n = 0 then Num (int (length buf)) else Num n
              | NaN \<Rightarrow> Num (int (length buf))
              | Infinity \<Rightarrow> Infinity
              | NegInfinity \<Rightarrow> NegInfinity"
  let ?r = "\<lparr>buffer = buf,
             contentType = or_default (header_content_type response) ''video/mp4'',
             contentLength = ?len\<rparr>"
  have r: "fst (downloadFromUrl e u w) = Inr ?r"
    using assms by (rule downloadFromUrl_ok)
  have numeric: "\<forall>h. header_content_length response = Some h \<and> h \<noteq> [] \<and> list_all is_digit h
              \<and> decimal_value h < 2 ^ 53 \<and> (decimal_value h = 0 \<longrightarrow> buf = [])
              \<longrightarrow> ?len = Num (int (decimal_value h))"
  proof (intro allI impI)
    fix h
    assume a: "header_content_length response = Some h \<and> h \<noteq> [] \<and> list_all is_digit h
              \<and> decimal_value h < 2 ^ 53 \<and> (decimal_value h = 0 \<longrightarrow> buf = [])"
    then have "parseInt10 (large_number e) h = Num (int (decimal_value h))"
      using parseInt10_numeric [of h "large_number e"] by blast
    with a have p: "parseInt10 (large_number e) (or_default (header_content_length response) ''0'')
                 = Num (int (decimal_value h))"
      by (simp add: or_default_def)
    show "?len = Num (int (decimal_value h))"
    proof (cases "decimal_value h = 0")
      case True
      with a have "buf = []" by blast
      with True show ?thesis by (simp only: p) simp
    next
      case False
      then show ?thesis by (simp only: p) simp
    qed
  qed
  have absent: "header_content_length response = None \<longrightarrow> ?len = Num (int (length buf))"
    by (simp add: content_length_header)
  have invalid: "\<forall>h. header_content_length response = Some h
              \<and> (h = [] \<or> parseInt10 (large_number e) h = NaN)
              \<longrightarrow> ?len = Num (int (length buf))"
  proof (intro allI impI)
    fix h
    assume a: "header_content_length response = Some h
              \<and> (h = [] \<or> parseInt10 (large_number e) h = NaN)"
    show "?len = Num (int (length buf))"
    proof (cases "h = []")
      case True
      with a have "parseInt10 (large_number e) (or_default (header_content_length response) ''0'') = Num 0"
        by (simp add: or_default_def parseInt10_zero)
      then show ?thesis by (simp only:) simp
    next
      case False
      with a have "parseInt10 (large_number e) (or_default (header_content_length response) ''0'') = NaN"
        by (simp add: or_default_def)
      then show ?thesis by (simp only:) simp
    qed
  qed
  have nonzero: "(header_content_length response = None
           \<or> (\<exists>h. header_content_length response = Some h
                  \<and> (h = [] \<or> parseInt10 (large_number e) h = NaN)))
          \<and> buf \<noteq> []
          \<longrightarrow> ?len \<noteq> Num 0"
  proof
    assume a: "(header_content_length response = None
           \<or> (\<exists>h. header_content_length response = Some h
                  \<and> (h = [] \<or> parseInt10 (large_number e) h = NaN)))
          \<and> buf \<noteq> []"
    have len: "?len = Num (int (length buf))"
    proof (cases "header_content_length response")
      case None
      then show ?thesis by (rule absent [THEN mp])
    next
      case (Some h)
      with a have "header_content_length response = Some h
              \<and> (h = [] \<or> parseInt10 (large_number e) h = NaN)"
        by simp
      then show ?thesis by (rule invalid [THEN spec, THEN mp])
    qed
    from a have "int (length buf) \<noteq> 0" by simp
    then show "?len \<noteq> Num 0" by (simp only: len) simp
  qed
  have sel: "buffer ?r = buf" "contentLength ?r = ?len" by simp_all
  show ?thesis
  proof (intro exI [of _ ?r] conjI)
    show "fst (downloadFromUrl e u w) = Inr ?r" by (rule r)
    show "buffer ?r = buf" by (rule sel)
    show "\<forall>h. header_content_length response = Some h \<and> h \<noteq> [] \<and> list_all is_digit h
              \<and> decimal_value h < 2 ^ 53 \<and> (decimal_value h = 0 \<longrightarrow> buf = [])
              \<longrightarrow> contentLength ?r = Num (int (decimal_value h))"
      using numeric by (simp only: sel)
    show "header_content_length response = None \<longrightarrow> contentLength ?r = Num (int (length buf))"
      using absent by (simp only: sel)
    show "\<forall>h. header_content_length response = Some h
              \<and> (h = [] \<or> parseInt10 (large_number e) h = NaN)
              \<longrightarrow> contentLength ?r = Num (int (length buf))"
      using invalid by (simp only: sel)
    show "(header_content_length response = None
           \<or> (\<exists>h. header_content_length response = Some h
                  \<and> (h = [] \<or> parseInt10 (large_number e) h = NaN)))
          \<and> buf \<noteq> []
          \<longrightarrow> contentLength ?r \<noteq> Num 0"
      using nonzero by (simp only: sel)
  qed
qed

theorem downloadFromUrl_contentLength_witness:
  "media_fetch (media_env (Some ''12'')) ''https://cdn/example.mp4''
     = Inr ((ok_response [1, 2, 3])\<lparr>header_content_length := Some ''12''\<rparr>)
   \<and> ok ((ok_response [1, 2, 3 :: 8 word])\<lparr>header_content_length := Some ''12''\<rparr>)
   \<and> body ((ok_response [1, 2, 3 :: 8 word])\<lparr>header_content_length := Some ''12''\<rparr>) = Inr [1, 2, 3]
   \<and> list_all is_digit ''12'' \<and> decimal_value ''12'' = 12
   \<and> map_sum id contentLength
        (fst (downloadFromUrl (media_env (Some ''12'')) ''https://cdn/example.mp4'' sample_world))
       = Inr (Num 12)
   \<and> map_sum id contentLength
        (fst (downloadFromUrl (media_env None) ''https://cdn/example.mp4'' sample_world))
       = Inr (Num 3)"
proof -
  let ?resp = "(ok_response [1, 2, 3 :: 8 word])\<lparr>header_content_length := Some ''12''\<rparr>"
  let ?none = "(ok_response [1, 2, 3 :: 8 word])\<lparr>header_content_length := None\<rparr>"
  have h1: "media_fetch (media_env (Some ''12'')) ''https://cdn/example.mp4'' = Inr ?resp"
    by (simp add: media_env_def sample_env_def)
  have h2: "ok ?resp" by (simp add: ok_response_def)
  have h3: "body ?resp = Inr [1, 2, 3]" by (simp add: ok_response_def)
  have d: "list_all is_digit ''12''" by (simp add: is_digit_def)
  have v: "decimal_value ''12'' = 12" by (simp add: decimal_value_def digit_val_def)
  have hyp: "header_content_length ?resp = Some ''12'' \<and> ''12'' \<noteq> [] \<and> list_all is_digit ''12''
              \<and> decimal_value ''12'' < 2 ^ 53 \<and> (decimal_value ''12'' = 0 \<longrightarrow> [1, 2, 3 :: 8 word] = [])"
    using d v by simp
  from downloadFromUrl_contentLength [OF h1 h2 h3, of sample_world]
  obtain r where r: "fst (downloadFromUrl (media_env (Some ''12'')) ''https://cdn/example.mp4'' sample_world) = Inr r"
    and n: "\<forall>h. header_content_length ?resp = Some h \<and> h \<noteq> [] \<and> list_all is_digit h
              \<and> decimal_value h < 2 ^ 53 \<and> (decimal_value h = 0 \<longrightarrow> [1, 2, 3 :: 8 word] = [])
              \<longrightarrow> contentLength r = Num (int (decimal_value h))"
    by (elim exE conjE) (rule that)
  from n [THEN spec, THEN mp, OF hyp] have "contentLength r = Num (int (decimal_value ''12''))" .
  with v have a: "map_sum id contentLength
        (fst (downloadFromUrl (media_env (Some ''12'')) ''https://cdn/example.mp4'' sample_world))
       = Inr (Num 12)"
    by (simp add: r)
  have g1: "media_fetch (media_env None) ''https://cdn/example.mp4'' = Inr ?none"
    by (simp add: media_env_def sample_env_def)
  have g2: "ok ?none" by (simp add: ok_response_def)
  have g3: "body ?none = Inr [1, 2, 3]" by (simp add: ok_response_def)
  have g4: "header_content_length ?none = None" by simp
  from downloadFromUrl_contentLength [OF g1 g2 g3, of sample_world]
  obtain r' where r': "fst (downloadFromUrl (media_env None) ''https://cdn/example.mp4'' sample_world) = Inr r'"
    and m: "header_content_length ?none = None \<longrightarrow> contentLength r' = Num (int (length [1, 2, 3 :: 8 word]))"
    by (elim exE conjE) (rule that)
  from m g4 have "contentLength r' = Num 3" by simp
  then have b: "map_sum id contentLength
        (fst (downloadFromUrl (media_env None) ''https://cdn/example.mp4'' sample_world))
       = Inr (Num 3)"
    by (simp add: r')
  from h1 h2 h3 d v a b show ?thesis by (intro conjI)
qed


section \<open>Temporary files of the transcoder\<close>


lemma unlink_tmp_files:
  "tmp_files (snd (unlink e p w)) q = (if q = p \<and> p \<notin> unlink_fails e then None else tmp_files w q)"
  by (simp add: unlink_def)

lemma unlink_frame:
  "requests (snd (unlink e p w)) = requests w"
  "bucket (snd (unlink e p w)) = bucket w"
  "video_table (snd (unlink e p w)) = video_table w"
  by (simp_all add: unlink_def)

lemma writeFile_frame:
  "requests (snd (writeFile e p b w)) = requests w"
  "bucket (snd (writeFile e p b w)) = bucket w"
  "video_table (snd (writeFile e p b w)) = video_table w"
  "q \<noteq> p \<Longrightarrow> tmp_files (snd (writeFile e p b w)) q = tmp_files w q"
  by (simp_all add: writeFile_def split: write_outcome.splits option.splits)

lemma runFFmpeg_frame:
  "requests (snd (runFFmpeg e ip outp w)) = requests w"
  "bucket (snd (runFFmpeg e ip outp w)) = bucket w"
  "video_table (snd (runFFmpeg e ip outp w)) = video_table w"
  "q \<noteq> outp \<Longrightarrow> tmp_files (snd (runFFmpeg e ip outp w)) q = tmp_files w q"
  by (simp_all add: runFFmpeg_def Let_def split: proc_outcome.splits option.splits)

lemma readFile_frame: "snd (readFile e p w) = w"
  by (simp add: readFile_def split: option.splits)

lemma compressVideo_try_world:
  "snd (compressVideo_try e ip outp buf w) =
     (case writeFile e ip buf w of
        (Inl err, w1) \<Rightarrow> w1
      | (Inr x, w1) \<Rightarrow> snd (runFFmpeg e ip outp w1))"
proof (cases "writeFile e ip buf w")
  case (Pair r1 w1)
  show ?thesis
  proof (cases r1)
    case (Inl err)
    with Pair show ?thesis by (simp add: compressVideo_try_def)
  next
    case (Inr x)
    show ?thesis
    proof (cases "runFFmpeg e ip outp w1")
      case ff: (Pair r2 w2)
      show ?thesis
      proof (cases r2)
        case (Inl err)
        with Pair Inr ff show ?thesis by (simp add: compressVideo_try_def)
      next
        case inr2: (Inr y)
        have "snd (readFile e outp w2) = w2" by (rule readFile_frame)
        then show ?thesis
          using Pair Inr ff inr2
          by (cases "readFile e outp w2") (auto simp: compressVideo_try_def split: sum.splits)
      qed
    qed
  qed
qed

lemma compressVideo_try_frame:
  "requests (snd (compressVideo_try e ip outp buf w)) = requests w"
  "bucket (snd (compressVideo_try e ip outp buf w)) = bucket w"
  "video_table (snd (compressVideo_try e ip outp buf w)) = video_table w"
  "q \<noteq> ip \<Longrightarrow> q \<noteq> outp \<Longrightarrow> tmp_files (snd (compressVideo_try e ip outp buf w)) q = tmp_files w q"
proof -
  obtain r1 w1 where wf: "writeFile e ip buf w = (r1, w1)" by (cases "writeFile e ip buf w")
  then have w1: "w1 = snd (writeFile e ip buf w)" by simp
  show "requests (snd (compressVideo_try e ip outp buf w)) = requests w"
    unfolding compressVideo_try_world wf
    by (cases r1) (simp_all add: w1 writeFile_frame runFFmpeg_frame)
  show "bucket (snd (compressVideo_try e ip outp buf w)) = bucket w"
    unfolding compressVideo_try_world wf
    by (cases r1) (simp_all add: w1 writeFile_frame runFFmpeg_frame)
  show "video_table (snd (compressVideo_try e ip outp buf w)) = video_table w"
    unfolding compressVideo_try_world wf
    by (cases r1) (simp_all add: w1 writeFile_frame runFFmpeg_frame)
  show "q \<noteq> ip \<Longrightarrow> q \<noteq> outp \<Longrightarrow> tmp_files (snd (compressVideo_try e ip outp buf w)) q = tmp_files w q"
    unfolding compressVideo_try_world wf
    by (cases r1) (simp_all add: w1 writeFile_frame runFFmpeg_frame)
qed

lemma writeFile_unlink_fails: "writeFile (e\<lparr>unlink_fails := U\<rparr>) p b w = writeFile e p b w"
  by (simp add: writeFile_def)

lemma runFFmpeg_unlink_fails: "runFFmpeg (e\<lparr>unlink_fails := U\<rparr>) ip outp w = runFFmpeg e ip outp w"
  by (simp add: runFFmpeg_def split: proc_outcome.splits)

lemma readFile_unlink_fails: "readFile (e\<lparr>unlink_fails := U\<rparr>) p w = readFile e p w"
  by (simp add: readFile_def)

lemma compressVideo_try_unlink_fails:
  "compressVideo_try (e\<lparr>unlink_fails := U\<rparr>) ip outp buf w = compressVideo_try e ip outp buf w"
  by (simp only: compressVideo_try_def writeFile_unlink_fails runFFmpeg_unlink_fails readFile_unlink_fails)

lemma compressVideo_result:
  "fst (compressVideo e buf mime w) =
     fst (compressVideo_try e (join (tmpdir e) (uuid_input e @ ''.'' @ getExtensionFromMimeType (inherited_text e) mime))
            (join (tmpdir e) (uuid_output e @ ''.mp4'')) buf w)"
  by (simp add: compressVideo_def Let_def split: prod.splits)

lemma compressVideo_world:
  "snd (compressVideo e buf mime w) =
     snd (unlink e (join (tmpdir e) (uuid_output e @ ''.mp4''))
       (snd (unlink e (join (tmpdir e) (uuid_input e @ ''.'' @ getExtensionFromMimeType (inherited_text e) mime))
          (snd (compressVideo_try e (join (tmpdir e) (uuid_input e @ ''.'' @ getExtensionFromMimeType (inherited_text e) mime))
            (join (tmpdir e) (uuid_output e @ ''.mp4'')) buf w)))))"
  by (simp add: compressVideo_def Let_def split: prod.splits)

lemma compressVideo_frame:
  "requests (snd (compressVideo e buf mime w)) = requests w"
  "bucket (snd (compressVideo e buf mime w)) = bucket w"
  "video_table (snd (compressVideo e buf mime w)) = video_table w"
  by (simp_all add: compressVideo_world unlink_frame compressVideo_try_frame)

text \<open>
  For an encoder run that ends, whatever happens in the attempt: each of the two temporary
  files is absent afterwards unless its own removal fails, no other temporary file is
  touched, and a failing removal never changes the result.
\<close>

lemma compressVideo_ends_cleanup:
  "(join (tmpdir e) (uuid_input e @ ''.'' @ getExtensionFromMimeType (inherited_text e) mime) \<notin> unlink_fails e
      \<longrightarrow> tmp_files (snd (compressVideo e buf mime w))
            (join (tmpdir e) (uuid_input e @ ''.'' @ getExtensionFromMimeType (inherited_text e) mime)) = None)
   \<and> (join (tmpdir e) (uuid_output e @ ''.mp4'') \<notin> unlink_fails e
      \<longrightarrow> tmp_files (snd (compressVideo e buf mime w)) (join (tmpdir e) (uuid_output e @ ''.mp4'')) = None)
   \<and> (\<forall>p. p \<noteq> join (tmpdir e) (uuid_input e @ ''.'' @ getExtensionFromMimeType (inherited_text e) mime)
          \<and> p \<noteq> join (tmpdir e) (uuid_output e @ ''.mp4'')
          \<longrightarrow> tmp_files (snd (compressVideo e buf mime w)) p = tmp_files w p)
   \<and> (\<forall>U. fst (compressVideo (e\<lparr>unlink_fails := U\<rparr>) buf mime w) = fst (compressVideo e buf mime w))"
proof -
  let ?ip = "join (tmpdir e) (uuid_input e @ ''.'' @ getExtensionFromMimeType (inherited_text e) mime)"
  let ?op = "join (tmpdir e) (uuid_output e @ ''.mp4'')"
  have a: "?ip \<notin> unlink_fails e \<longrightarrow> tmp_files (snd (compressVideo e buf mime w)) ?ip = None"
    by (simp add: compressVideo_world unlink_tmp_files)
  have b: "?op \<notin> unlink_fails e \<longrightarrow> tmp_files (snd (compressVideo e buf mime w)) ?op = None"
    by (simp add: compressVideo_world unlink_tmp_files)
  have c: "\<forall>p. p \<noteq> ?ip \<and> p \<noteq> ?op \<longrightarrow> tmp_files (snd (compressVideo e buf mime w)) p = tmp_files w p"
    by (simp add: compressVideo_world unlink_tmp_files compressVideo_try_frame)
  have d: "\<forall>U. fst (compressVideo (e\<lparr>unlink_fails := U\<rparr>) buf mime w) = fst (compressVideo e buf mime w)"
    by (simp add: compressVideo_result compressVideo_try_unlink_fails)
  from a b c d show ?thesis by (intro conjI)
qed




lemma compressVideo_run_ends:
  "compressVideo_run (Ends outcome) e buf mime w =
     (Some (fst (compressVideo (e\<lparr>ffmpeg_run := outcome\<rparr>) buf mime w)),
      snd (compressVideo (e\<lparr>ffmpeg_run := outcome\<rparr>) buf mime w))"
  by (simp add: compressVideo_run_def split: prod.splits)

lemma compressVideo_run_never_ends:
  assumes "write_input e = WriteOk"
  shows "fst (compressVideo_run NeverEnds e buf mime w) = None"
    and "tmp_files (snd (compressVideo_run NeverEnds e buf mime w))
           (join (tmpdir e) (uuid_input e @ ''.'' @ getExtensionFromMimeType (inherited_text e) mime)) \<noteq> None"
  using assms
  by (simp_all add: compressVideo_run_def writeFile_def Let_def split: option.splits)

text \<open>
  Claim C3, as amended. For every invocation of \<open>compressVideo\<close> whose encoder run ends,
  whatever happens in the attempt (the input cannot be written, the encoder cannot be
  spawned, it exits with a non-zero code, its output cannot be read, or all succeeds), the
  operation returns, and before it does it tries to remove the temporary input file and the
  temporary output file: each of the two is absent afterwards unless its own removal fails,
  no other temporary file is touched, and a failing removal never changes the result. The
  code has no caller cancellation: while the encoder has not closed, the operation does not
  return and the temporary input file stays where it was written.
\<close>

theorem compressVideo_run_cleanup:
  "(\<forall>outcome.
      fst (compressVideo_run (Ends outcome) e buf mime w) \<noteq> None
    \<and> (join (tmpdir e) (uuid_input e @ ''.'' @ getExtensionFromMimeType (inherited_text e) mime)
          \<notin> unlink_fails e
        \<longrightarrow> tmp_files (snd (compressVideo_run (Ends outcome) e buf mime w))
              (join (tmpdir e) (uuid_input e @ ''.'' @ getExtensionFromMimeType (inherited_text e) mime))
            = None)
    \<and> (join (tmpdir e) (uuid_output e @ ''.mp4'') \<notin> unlink_fails e
        \<longrightarrow> tmp_files (snd (compressVideo_run (Ends outcome) e buf mime w))
              (join (tmpdir e) (uuid_output e @ ''.mp4'')) = None)
    \<and> (\<forall>p. p \<noteq> join (tmpdir e) (uuid_input e @ ''.'' @ getExtensionFromMimeType (inherited_text e) mime)
            \<and> p \<noteq> join (tmpdir e) (uuid_output e @ ''.mp4'')
            \<longrightarrow> tmp_files (snd (compressVideo_run (Ends outcome) e buf mime w)) p = tmp_files w p)
    \<and> (\<forall>U. fst (compressVideo_run (Ends outcome) (e\<lparr>unlink_fails := U\<rparr>) buf mime w)
            = fst (compressVideo_run (Ends outcome) e buf mime w)))
   \<and> (write_input e = WriteOk
        \<longrightarrow> fst (compressVideo_run NeverEnds e buf mime w) = None
          \<and> tmp_files (snd (compressVideo_run NeverEnds e buf mime w))
               (join (tmpdir e) (uuid_input e @ ''.'' @ getExtensionFromMimeType (inherited_text e) mime))
             \<noteq> None)"
proof (intro conjI allI impI)
  fix outcome
  let ?e = "e\<lparr>ffmpeg_run := outcome\<rparr>"
  let ?ip = "join (tmpdir e) (uuid_input e @ ''.'' @ getExtensionFromMimeType (inherited_text e) mime)"
  let ?op = "join (tmpdir e) (uuid_output e @ ''.mp4'')"
  note ends = compressVideo_ends_cleanup [of ?e mime buf w, simplified]
  show "fst (compressVideo_run (Ends outcome) e buf mime w) \<noteq> None"
    by (simp add: compressVideo_run_ends)
  show "tmp_files (snd (compressVideo_run (Ends outcome) e buf mime w)) ?ip = None"
    if "?ip \<notin> unlink_fails e"
    using that ends by (simp add: compressVideo_run_ends)
  show "tmp_files (snd (compressVideo_run (Ends outcome) e buf mime w)) ?op = None"
    if "?op \<notin> unlink_fails e"
    using that ends by (simp add: compressVideo_run_ends)
  show "tmp_files (snd (compressVideo_run (Ends outcome) e buf mime w)) p = tmp_files w p"
    if "p \<noteq> ?ip \<and> p \<noteq> ?op" for p
    using that ends by (simp add: compressVideo_run_ends)
  show "fst (compressVideo_run (Ends outcome) (e\<lparr>unlink_fails := U\<rparr>) buf mime w)
            = fst (compressVideo_run (Ends outcome) e buf mime w)" for U
  proof -
    have eq: "(e\<lparr>unlink_fails := U\<rparr>)\<lparr>ffmpeg_run := outcome\<rparr> = ?e\<lparr>unlink_fails := U\<rparr>" by simp
    from compressVideo_ends_cleanup [of ?e mime buf w, THEN conjunct2, THEN conjunct2, THEN conjunct2]
    have "fst (compressVideo (?e\<lparr>unlink_fails := U\<rparr>) buf mime w) = fst (compressVideo ?e buf mime w)"
      by (rule spec)
    then show ?thesis
      by (simp only: compressVideo_run_ends fst_conv eq)
  qed
next
  assume "write_input e = WriteOk"
  then show "fst (compressVideo_run NeverEnds e buf mime w) = None"
    by (rule compressVideo_run_never_ends)
next
  assume "write_input e = WriteOk"
  then show "tmp_files (snd (compressVideo_run NeverEnds e buf mime w))
               (join (tmpdir e) (uuid_input e @ ''.'' @ getExtensionFromMimeType (inherited_text e) mime))
             \<noteq> None"
    by (rule compressVideo_run_never_ends)
qed

lemma sample_paths:
  "join (tmpdir failing_encoder_env)
     (uuid_input failing_encoder_env @ ''.''
        @ getExtensionFromMimeType (inherited_text failing_encoder_env) ''video/webm'')
     = ''/tmp/in-1.webm''"
  "join (tmpdir failing_encoder_env) (uuid_output failing_encoder_env @ ''.mp4'') = ''/tmp/out-2.mp4''"
  by (simp_all add: failing_encoder_env_def sample_env_def join_def getExtensionFromMimeType_def
                    mimeMap_def)

theorem compressVideo_run_cleanup_witness:
  "''/tmp/in-1.webm'' \<notin> unlink_fails failing_encoder_env
   \<and> ''/tmp/out-2.mp4'' \<notin> unlink_fails failing_encoder_env
   \<and> fst (compressVideo_run (Ends (Closed (Some 1) ''Conversion failed!'')) failing_encoder_env
             [1, 2, 3, 4] ''video/webm'' sample_world) \<noteq> None
   \<and> tmp_files (snd (compressVideo_run (Ends (Closed (Some 1) ''Conversion failed!'')) failing_encoder_env
                        [1, 2, 3, 4] ''video/webm'' sample_world))
        ''/tmp/in-1.webm'' = None
   \<and> tmp_files (snd (compressVideo_run (Ends (Closed (Some 1) ''Conversion failed!'')) failing_encoder_env
                        [1, 2, 3, 4] ''video/webm'' sample_world))
        ''/tmp/out-2.mp4'' = None
   \<and> write_input failing_encoder_env = WriteOk
   \<and> fst (compressVideo_run NeverEnds failing_encoder_env [1, 2, 3, 4] ''video/webm'' sample_world) = None
   \<and> tmp_files (snd (compressVideo_run NeverEnds failing_encoder_env [1, 2, 3, 4] ''video/webm''
                        sample_world))
        ''/tmp/in-1.webm'' \<noteq> None"
proof -
  let ?run = "Ends (Closed (Some 1) ''Conversion failed!'')"
  have h1: "''/tmp/in-1.webm'' \<notin> unlink_fails failing_encoder_env"
    by (simp add: failing_encoder_env_def sample_env_def)
  have h2: "''/tmp/out-2.mp4'' \<notin> unlink_fails failing_encoder_env"
    by (simp add: failing_encoder_env_def sample_env_def)
  have h3: "write_input failing_encoder_env = WriteOk"
    by (simp add: failing_encoder_env_def sample_env_def)
  note inst = compressVideo_run_cleanup [of failing_encoder_env "[1, 2, 3, 4]" "''video/webm''" sample_world,
      unfolded sample_paths]
  note ends = inst [THEN conjunct1, THEN spec, of "Closed (Some 1) ''Conversion failed!''"]
  note never = inst [THEN conjunct2, THEN mp, OF h3]
  from ends have r: "fst (compressVideo_run ?run failing_encoder_env [1, 2, 3, 4] ''video/webm'' sample_world) \<noteq> None"
    by (rule conjunct1)
  from ends h1 have a: "tmp_files (snd (compressVideo_run ?run failing_encoder_env
                        [1, 2, 3, 4] ''video/webm'' sample_world)) ''/tmp/in-1.webm'' = None"
    by blast
  from ends h2 have b: "tmp_files (snd (compressVideo_run ?run failing_encoder_env
                        [1, 2, 3, 4] ''video/webm'' sample_world)) ''/tmp/out-2.mp4'' = None"
    by blast
  from h1 h2 r a b h3 never show ?thesis by blast
qed

text \<open>
  Claim C3 as stated fails on the path of a caller that gives up: with an encoder that has
  not closed, the operation has not returned and the temporary input file, with its four
  bytes, is still there; the source has nothing that would end the wait or remove the
  file.
\<close>

theorem compressVideo_unfinished_keeps_input:
  "fst (compressVideo_run NeverEnds sample_env [1, 2, 3, 4] ''video/webm'' sample_world) = None
   \<and> tmp_files (snd (compressVideo_run NeverEnds sample_env [1, 2, 3, 4] ''video/webm'' sample_world))
        ''/tmp/in-1.webm'' = Some [1, 2, 3, 4]"
  by (simp add: compressVideo_run_def writeFile_def sample_env_def sample_world_def join_def
        getExtensionFromMimeType_def mimeMap_def Let_def)


section \<open>A failing encoder\<close>


lemma runFFmpeg_fails:
  assumes "encoder_fails e"
  shows "\<exists>err. fst (runFFmpeg e ip outp w) = Inl err"
  using assms
  by (auto simp: encoder_fails_def runFFmpeg_def Let_def split: proc_outcome.splits)

lemma compressVideo_try_fails:
  assumes "encoder_fails e"
  shows "\<exists>err. fst (compressVideo_try e ip outp buf w) = Inl err"
proof (cases "writeFile e ip buf w")
  case (Pair r1 w1)
  show ?thesis
  proof (cases r1)
    case (Inl err)
    with Pair show ?thesis by (simp add: compressVideo_try_def)
  next
    case (Inr x)
    from runFFmpeg_fails [OF assms, of ip outp w1]
    obtain err where "fst (runFFmpeg e ip outp w1) = Inl err" by blast
    then obtain w2 where "runFFmpeg e ip outp w1 = (Inl err, w2)"
      by (cases "runFFmpeg e ip outp w1") auto
    with Pair Inr show ?thesis by (simp add: compressVideo_try_def)
  qed
qed

lemma compressVideo_fails:
  assumes "encoder_fails e"
  shows "\<exists>err. fst (compressVideo e buf mime w) = Inl err"
  unfolding compressVideo_result using assms by (rule compressVideo_try_fails)

lemma compressVideo_spawn_error:
  assumes "write_input e = WriteOk" and "ffmpeg_run e = SpawnFailed msg"
  shows "fst (compressVideo e buf mime w) = Inl (Error (''FFmpeg spawn error: '' @ msg))"
  using assms
  by (simp add: compressVideo_result compressVideo_try_def writeFile_def runFFmpeg_def)

lemma compressVideo_exit_error:
  assumes "write_input e = WriteOk" and "ffmpeg_run e = Closed code stderr" and "code \<noteq> Some 0"
  shows "fst (compressVideo e buf mime w) =
           Inl (Error (''FFmpeg exited with code '' @ show_code code @ '': '' @ slice_last 500 stderr))"
  using assms
  by (simp add: compressVideo_result compressVideo_try_def writeFile_def runFFmpeg_def Let_def)

lemma compressVideo_world_eq:
  "snd (compressVideo e buf mime w) = w\<lparr>tmp_files := tmp_files (snd (compressVideo e buf mime w))\<rparr>"
  by (rule world.equality) (simp_all add: compressVideo_frame)

lemma compress_step_fails:
  assumes "encoder_fails e"
  shows "\<exists>T. compress_step e sc buf ct w = ((buf, int (length buf), ct), w\<lparr>tmp_files := T\<rparr>)"
proof (cases "sc \<and> checkFFmpegAvailable e")
  case True
  obtain r w' where cv: "compressVideo e buf ct w = (r, w')"
    by (cases "compressVideo e buf ct w")
  from compressVideo_fails [OF assms, of buf ct w] cv
  obtain err where r: "r = Inl err" by auto
  from compressVideo_world_eq [of e buf ct w] cv
  have w': "w' = w\<lparr>tmp_files := tmp_files w'\<rparr>" by simp
  from True cv r have "compress_step e sc buf ct w = ((buf, int (length buf), ct), w')"
    by (simp add: compress_step_def)
  with w' have "compress_step e sc buf ct w = ((buf, int (length buf), ct), w\<lparr>tmp_files := tmp_files w'\<rparr>)"
    by simp
  then show ?thesis by blast
next
  case False
  then have "compress_step e sc buf ct w = ((buf, int (length buf), ct), w\<lparr>tmp_files := tmp_files w\<rparr>)"
    by (auto simp: compress_step_def)
  then show ?thesis by blast
qed

lemma compress_step_off: "compress_step e False buf ct w = ((buf, int (length buf), ct), w)"
  by (simp add: compress_step_def)




lemma uploadFile_tmp:
  "uploadFile e k b c (w\<lparr>tmp_files := T\<rparr>) =
     (fst (uploadFile e k b c w), (snd (uploadFile e k b c w))\<lparr>tmp_files := T\<rparr>)"
  by (simp add: uploadFile_def split: option.splits)

lemma create_video_tmp:
  "create_video e row (w\<lparr>tmp_files := T\<rparr>) =
     (fst (create_video e row w), (snd (create_video e row w))\<lparr>tmp_files := T\<rparr>)"
  by (simp add: create_video_def Let_def split: sum.splits)

lemma POST_tunnel_encoder_fails:
  assumes "encoder_fails e"
  shows "\<exists>T. POST_tunnel e r p sc d f w =
           (fst (POST_tunnel e r p False d f w), (snd (POST_tunnel e r p False d f w))\<lparr>tmp_files := T\<rparr>)"
proof (cases "downloadFromUrl e d w")
  case (Pair r1 w1)
  show ?thesis
  proof (cases r1)
    case (Inl err)
    with Pair have "POST_tunnel e r p sc d f w =
           (fst (POST_tunnel e r p False d f w), (snd (POST_tunnel e r p False d f w))\<lparr>tmp_files := tmp_files w1\<rparr>)"
      by (simp add: POST_tunnel_def)
    then show ?thesis by blast
  next
    case (Inr dl)
    from compress_step_fails [OF assms, of sc "buffer dl" "contentType dl" w1]
    obtain T where T: "compress_step e sc (buffer dl) (contentType dl) w1 =
        ((buffer dl, int (length (buffer dl)), contentType dl), w1\<lparr>tmp_files := T\<rparr>)" by blast
    have "POST_tunnel e r p sc d f w =
           (fst (POST_tunnel e r p False d f w), (snd (POST_tunnel e r p False d f w))\<lparr>tmp_files := T\<rparr>)"
    proof (cases "put_object e")
      case (Some err)
      with Pair Inr T show ?thesis
        by (simp add: POST_tunnel_def compress_step_off uploadFile_def Let_def)
    next
      case None
      with Pair Inr T show ?thesis
        by (cases "video_create e")
           (simp_all add: POST_tunnel_def compress_step_off uploadFile_def create_video_def Let_def)
    qed
    then show ?thesis by blast
  qed
qed


lemma POST_picker_encoder_fails:
  assumes "encoder_fails e"
  shows "\<exists>T. POST_picker e r p sc items w =
           (fst (POST_picker e r p False items w), (snd (POST_picker e r p False items w))\<lparr>tmp_files := T\<rparr>)"
proof (cases "find (\<lambda>item. item_type item = Video) items")
  case None
  then have "POST_picker e r p sc items w =
           (fst (POST_picker e r p False items w),
            (snd (POST_picker e r p False items w))\<lparr>tmp_files := tmp_files w\<rparr>)"
    by (simp add: POST_picker_def)
  then show ?thesis by blast
next
  case (Some firstVideo)
  show ?thesis
  proof (cases "downloadFromUrl e (item_url firstVideo) w")
    case (Pair r1 w1)
    show ?thesis
    proof (cases r1)
      case (Inl err)
      with Some Pair have "POST_picker e r p sc items w =
           (fst (POST_picker e r p False items w),
            (snd (POST_picker e r p False items w))\<lparr>tmp_files := tmp_files w1\<rparr>)"
        by (simp add: POST_picker_def)
      then show ?thesis by blast
    next
      case (Inr dl)
      from compress_step_fails [OF assms, of sc "buffer dl" "contentType dl" w1]
      obtain T where T: "compress_step e sc (buffer dl) (contentType dl) w1 =
          ((buffer dl, int (length (buffer dl)), contentType dl), w1\<lparr>tmp_files := T\<rparr>)" by blast
      have "POST_picker e r p sc items w =
           (fst (POST_picker e r p False items w), (snd (POST_picker e r p False items w))\<lparr>tmp_files := T\<rparr>)"
      proof (cases "put_object e")
        case (Some err)
        with \<open>find (\<lambda>item. item_type item = Video) items = Some firstVideo\<close> Pair Inr T show ?thesis
          by (simp add: POST_picker_def compress_step_off uploadFile_def Let_def)
      next
        case None
        with \<open>find (\<lambda>item. item_type item = Video) items = Some firstVideo\<close> Pair Inr T show ?thesis
          by (cases "video_create e")
             (simp_all add: POST_picker_def compress_step_off uploadFile_def create_video_def Let_def)
      qed
      then show ?thesis by blast
    qed
  qed
qed

lemma download_flag_irrelevant:
  "downloadFromUrl (e\<lparr>COMPRESSION_ENABLED := b\<rparr>) u w = downloadFromUrl e u w"
  by (simp add: downloadFromUrl_def Let_def split: sum.splits)

lemma compression_flag_irrelevant:
  "requestDownload (e\<lparr>COMPRESSION_ENABLED := b\<rparr>) = requestDownload e"
  "downloadFromUrl (e\<lparr>COMPRESSION_ENABLED := b\<rparr>) = downloadFromUrl e"
  "uploadFile (e\<lparr>COMPRESSION_ENABLED := b\<rparr>) = uploadFile e"
  "create_video (e\<lparr>COMPRESSION_ENABLED := b\<rparr>) = create_video e"
  "compress_step (e\<lparr>COMPRESSION_ENABLED := b\<rparr>) False = compress_step e False"
  "now (e\<lparr>COMPRESSION_ENABLED := b\<rparr>) = now e"
  "random36 (e\<lparr>COMPRESSION_ENABLED := b\<rparr>) = random36 e"
  "unicode_upper (e\<lparr>COMPRESSION_ENABLED := b\<rparr>) = unicode_upper e"
  "request_json (e\<lparr>COMPRESSION_ENABLED := b\<rparr>) = request_json e"
  by (simp_all add: fun_eq_iff requestDownload_def download_flag_irrelevant uploadFile_def
                    create_video_def compress_step_def)

lemma POST_branches_flag_irrelevant:
  "POST_tunnel (e\<lparr>COMPRESSION_ENABLED := b\<rparr>) r p False d f w = POST_tunnel e r p False d f w"
  "POST_picker (e\<lparr>COMPRESSION_ENABLED := b\<rparr>) r p False items w = POST_picker e r p False items w"
  by (simp_all only: POST_tunnel_def POST_picker_def compression_flag_irrelevant)

lemma same_up_to_tmp:
  "a = x \<Longrightarrow> b = x \<Longrightarrow> \<exists>T. a = (fst b, (snd b)\<lparr>tmp_files := T\<rparr>)"
  by (rule exI [of _ "tmp_files (snd x)"]) simp


lemma POST_try_encoder_fails:
  assumes "encoder_fails e"
  shows "\<exists>T. POST_try e w =
           (fst (POST_try (e\<lparr>COMPRESSION_ENABLED := False\<rparr>) w),
            (snd (POST_try (e\<lparr>COMPRESSION_ENABLED := False\<rparr>) w))\<lparr>tmp_files := T\<rparr>)"
proof (cases "request_json e")
  case (Inl err)
  then show ?thesis
    by (intro same_up_to_tmp [of _ "(Inl err, w)"]) (simp_all add: POST_try_def)
next
  case (Inr request)
  show ?thesis
  proof (cases "req_url request = None \<or> req_url request = Some []")
    case True
    with Inr show ?thesis
      by (intro same_up_to_tmp [of _ "(Inr (json_error 400 ''URL is required''), w)"])
         (simp_all add: POST_try_def)
  next
    case False
    then obtain u where u: "req_url request = Some u" "u \<noteq> []" by auto
    then have nonempty: "\<not> (req_url request = None \<or> req_url request = Some [])" by simp
    show ?thesis
    proof (cases "isUrlSupported (the (req_url request))")
      case False
      with Inr u show ?thesis
        by (intro same_up_to_tmp [of _ "(Inr (json_error 400
                         ''URL is not supported. Try YouTube, TikTok, Instagram, or LinkedIn.''), w)"])
           (simp_all add: POST_try_def)
    next
      case True
      let ?opts = "\<lparr>url = the (req_url request),
                    videoQuality = Some (or_default (req_videoQuality request) ''1080''),
                    audioFormat = None,
                    audioBitrate = None,
                    downloadMode = Some (or_default (req_downloadMode request) ''auto''),
                    filenameStyle = None,
                    youtubeVideoCodec = None\<rparr>"
      obtain r1 w1 where rd: "requestDownload e ?opts w = (r1, w1)"
        by (cases "requestDownload e ?opts w")
      then have rd': "requestDownload (e\<lparr>COMPRESSION_ENABLED := False\<rparr>) ?opts w = (r1, w1)"
        by (simp only: compression_flag_irrelevant)
      show ?thesis
      proof (cases r1)
        case (Inl err)
        with Inr u True rd rd' show ?thesis
          by (intro same_up_to_tmp [of _ "(Inl err, w1)"])
             (simp_all add: POST_try_def Let_def)
      next
        case resp: (Inr cobaltResponse)
        show ?thesis
        proof (cases cobaltResponse)
          case (CobaltTunnelResponse st downloadUrl filename)
          have l: "POST_try e w = POST_tunnel e (the (req_url request)) (detectPlatform (the (req_url request)))
                     (req_compress request \<noteq> Some False \<and> COMPRESSION_ENABLED e) downloadUrl filename w1"
            using Inr u True rd resp CobaltTunnelResponse
            by (simp add: POST_try_def Let_def)
          have r: "POST_try (e\<lparr>COMPRESSION_ENABLED := False\<rparr>) w =
                   POST_tunnel e (the (req_url request)) (detectPlatform (the (req_url request)))
                     False downloadUrl filename w1"
            using Inr u True rd' resp CobaltTunnelResponse
            by (simp add: POST_try_def Let_def POST_branches_flag_irrelevant)
          show ?thesis
            unfolding l r by (rule POST_tunnel_encoder_fails [OF assms])
        next
          case (CobaltPickerResponse items)
          have l: "POST_try e w = POST_picker e (the (req_url request)) (detectPlatform (the (req_url request)))
                     (req_compress request \<noteq> Some False \<and> COMPRESSION_ENABLED e) items w1"
            using Inr u True rd resp CobaltPickerResponse
            by (simp add: POST_try_def Let_def)
          have r: "POST_try (e\<lparr>COMPRESSION_ENABLED := False\<rparr>) w =
                   POST_picker e (the (req_url request)) (detectPlatform (the (req_url request)))
                     False items w1"
            using Inr u True rd' resp CobaltPickerResponse
            by (simp add: POST_try_def Let_def POST_branches_flag_irrelevant)
          show ?thesis
            unfolding l r by (rule POST_picker_encoder_fails [OF assms])
        next
          case (CobaltErrorResponse code service)
          with Inr u True rd rd' resp show ?thesis
            by (intro same_up_to_tmp [of _ "(Inr (json_error 400 (''Download failed: '' @ code)), w1)"])
               (simp_all add: POST_try_def Let_def)
        next
          case (CobaltUnknownResponse st)
          with Inr u True rd rd' resp show ?thesis
            by (intro same_up_to_tmp [of _ "(Inr (json_error 500 ''Unexpected response from download service''), w1)"])
               (simp_all add: POST_try_def Let_def)
        qed
      qed
    qed
  qed
qed

lemma POST_encoder_fails:
  assumes "encoder_fails e"
  shows "\<exists>T. POST e w =
           (fst (POST (e\<lparr>COMPRESSION_ENABLED := False\<rparr>) w),
            (snd (POST (e\<lparr>COMPRESSION_ENABLED := False\<rparr>) w))\<lparr>tmp_files := T\<rparr>)"
proof -
  from POST_try_encoder_fails [OF assms, of w]
  obtain T where T: "POST_try e w =
           (fst (POST_try (e\<lparr>COMPRESSION_ENABLED := False\<rparr>) w),
            (snd (POST_try (e\<lparr>COMPRESSION_ENABLED := False\<rparr>) w))\<lparr>tmp_files := T\<rparr>)" by blast
  obtain r' w' where p: "POST_try (e\<lparr>COMPRESSION_ENABLED := False\<rparr>) w = (r', w')"
    by (cases "POST_try (e\<lparr>COMPRESSION_ENABLED := False\<rparr>) w")
  with T have "POST_try e w = (r', w'\<lparr>tmp_files := T\<rparr>)" by simp
  with p have "POST e w =
           (fst (POST (e\<lparr>COMPRESSION_ENABLED := False\<rparr>) w),
            (snd (POST (e\<lparr>COMPRESSION_ENABLED := False\<rparr>) w))\<lparr>tmp_files := T\<rparr>)"
    by (cases r') (simp_all add: POST_def)
  then show ?thesis by blast
qed


text \<open>
  Claim C1, as amended. \<open>compressVideo\<close> has no \<open>succeeded\<close> flag: when the encoder cannot
  be spawned or exits with a non-zero code, it rejects with an \<open>Error\<close> that its caller
  observes. The route handler catches that error in both of its branches and goes on with
  the original bytes, size and content type, so that its reply, the bucket and the video
  table are the same as in a run with compression switched off.
\<close>

theorem compression_failure_caught:
  "(write_input e = WriteOk \<and> ffmpeg_run e = SpawnFailed msg
      \<longrightarrow> fst (compressVideo e buf mime w) = Inl (Error (''FFmpeg spawn error: '' @ msg)))
   \<and> (write_input e = WriteOk \<and> ffmpeg_run e = Closed code stderr \<and> code \<noteq> Some 0
      \<longrightarrow> fst (compressVideo e buf mime w) =
            Inl (Error (''FFmpeg exited with code '' @ show_code code @ '': '' @ slice_last 500 stderr)))
   \<and> (encoder_fails e
      \<longrightarrow> (\<exists>err. fst (compressVideo e buf mime w) = Inl err)
        \<and> fst (compress_step e sc buf mime w) = (buf, int (length buf), mime)
        \<and> fst (POST e w) = fst (POST (e\<lparr>COMPRESSION_ENABLED := False\<rparr>) w)
        \<and> bucket (snd (POST e w)) = bucket (snd (POST (e\<lparr>COMPRESSION_ENABLED := False\<rparr>) w))
        \<and> video_table (snd (POST e w)) = video_table (snd (POST (e\<lparr>COMPRESSION_ENABLED := False\<rparr>) w)))"
proof (intro conjI impI)
  assume "write_input e = WriteOk \<and> ffmpeg_run e = SpawnFailed msg"
  then show "fst (compressVideo e buf mime w) = Inl (Error (''FFmpeg spawn error: '' @ msg))"
    by (simp add: compressVideo_spawn_error)
next
  assume "write_input e = WriteOk \<and> ffmpeg_run e = Closed code stderr \<and> code \<noteq> Some 0"
  then show "fst (compressVideo e buf mime w) =
            Inl (Error (''FFmpeg exited with code '' @ show_code code @ '': '' @ slice_last 500 stderr))"
    by (simp add: compressVideo_exit_error)
next
  assume f: "encoder_fails e"
  then show "\<exists>err. fst (compressVideo e buf mime w) = Inl err"
    by (rule compressVideo_fails)
  from compress_step_fails [OF f, of sc buf mime w]
  show "fst (compress_step e sc buf mime w) = (buf, int (length buf), mime)"
    by auto
  from POST_encoder_fails [OF f, of w]
  obtain T where T: "POST e w =
           (fst (POST (e\<lparr>COMPRESSION_ENABLED := False\<rparr>) w),
            (snd (POST (e\<lparr>COMPRESSION_ENABLED := False\<rparr>) w))\<lparr>tmp_files := T\<rparr>)" by blast
  show "fst (POST e w) = fst (POST (e\<lparr>COMPRESSION_ENABLED := False\<rparr>) w)"
    by (subst T) simp
  show "bucket (snd (POST e w)) = bucket (snd (POST (e\<lparr>COMPRESSION_ENABLED := False\<rparr>) w))"
    by (subst T) simp
  show "video_table (snd (POST e w)) = video_table (snd (POST (e\<lparr>COMPRESSION_ENABLED := False\<rparr>) w))"
    by (subst T) simp
qed

theorem compression_failure_caught_witness:
  "encoder_fails failing_encoder_env
   \<and> fst (compress_step failing_encoder_env True [1, 2, 3, 4] ''video/webm'' sample_world)
       = ([1, 2, 3, 4], 4, ''video/webm'')
   \<and> fst (POST failing_encoder_env sample_world)
       = fst (POST (failing_encoder_env\<lparr>COMPRESSION_ENABLED := False\<rparr>) sample_world)"
proof -
  have h: "encoder_fails failing_encoder_env"
    by (simp add: encoder_fails_def failing_encoder_env_def sample_env_def)
  note inst = compression_failure_caught [of failing_encoder_env "[]" "[1, 2, 3, 4]" "''video/webm''"
      sample_world "Some 1" "[]" True, THEN conjunct2, THEN conjunct2, rule_format, OF h]
  from inst have "fst (compress_step failing_encoder_env True [1, 2, 3, 4] ''video/webm'' sample_world)
       = ([1, 2, 3, 4], int (length [1, 2, 3, 4 :: 8 word]), ''video/webm'')"
    and "fst (POST failing_encoder_env sample_world)
       = fst (POST (failing_encoder_env\<lparr>COMPRESSION_ENABLED := False\<rparr>) sample_world)"
    by blast+
  with h show ?thesis by simp
qed

text \<open>
  Claim C1 as stated fails: with an encoder that exits with code 1, the compress operation
  does not return an outcome, it raises an error to its caller.
\<close>

theorem compressVideo_rejects:
  "fst (compressVideo failing_encoder_env [1, 2, 3, 4] ''video/webm'' sample_world)
     = Inl (Error ''FFmpeg exited with code 1: Conversion failed!'')"
  by (simp add: compressVideo_result compressVideo_try_def writeFile_def runFFmpeg_def
        failing_encoder_env_def sample_env_def show_code_def digits.simps digit_char_def slice_last_def)



section \<open>Failures of the resolution service\<close>


lemma requestDownload_world:
  "snd (requestDownload e opts w) = w\<lparr>requests := requests w @ [COBALT_API_URL e]\<rparr>"
  by (simp add: requestDownload_def Let_def split: sum.splits)

lemma requestDownload_rejected:
  assumes "\<forall>sent. cobalt_fetch e sent = Inl err"
  shows "fst (requestDownload e opts w) = Inl err"
  using assms by (simp add: requestDownload_def Let_def)

lemma requestDownload_not_ok:
  assumes "\<forall>sent. cobalt_fetch e sent = Inr response" and "\<not> ok response"
  shows "fst (requestDownload e opts w) =
           Inl (Error (''Cobalt API error: '' @ digits (status response) @ '' '' @ statusText response))"
  using assms by (simp add: requestDownload_def Let_def)

lemma requestDownload_ok:
  assumes "\<forall>sent. cobalt_fetch e sent = Inr response" and "ok response"
  shows "fst (requestDownload e opts w) = body response"
  using assms by (simp add: requestDownload_def Let_def)

lemma POST_try_valid:
  assumes "request_json e = Inr request" and "req_url request = Some u" and "u \<noteq> []"
    and "isUrlSupported u"
  shows "POST_try e w =
     (case requestDownload e
              \<lparr>url = u,
               videoQuality = Some (or_default (req_videoQuality request) ''1080''),
               audioFormat = None,
               audioBitrate = None,
               downloadMode = Some (or_default (req_downloadMode request) ''auto''),
               filenameStyle = None,
               youtubeVideoCodec = None\<rparr> w of
         (Inl err, w1) \<Rightarrow> (Inl err, w1)
       | (Inr cobaltResponse, w1) \<Rightarrow>
           (case cobaltResponse of
              CobaltErrorResponse code service \<Rightarrow>
                (Inr (json_error 400 (''Download failed: '' @ code)), w1)
            | CobaltPickerResponse picker \<Rightarrow>
                POST_picker e u (detectPlatform u)
                  (req_compress request \<noteq> Some False \<and> COMPRESSION_ENABLED e) picker w1
            | CobaltTunnelResponse st downloadUrl filename \<Rightarrow>
                POST_tunnel e u (detectPlatform u)
                  (req_compress request \<noteq> Some False \<and> COMPRESSION_ENABLED e) downloadUrl filename w1
            | CobaltUnknownResponse st \<Rightarrow>
                (Inr (json_error 500 ''Unexpected response from download service''), w1)))"
  using assms by (simp add: POST_try_def Let_def)

lemma POST_resolution_error:
  assumes "request_json e = Inr request" and "req_url request = Some u" and "u \<noteq> []"
    and "isUrlSupported u"
    and "\<And>opts. fst (requestDownload e opts w) = Inl err"
  shows "POST e w = (json_error 500 (case err of Error msg \<Rightarrow> msg | NonError \<Rightarrow> ''Download failed''),
                     w\<lparr>requests := requests w @ [COBALT_API_URL e]\<rparr>)"
proof -
  let ?opts = "\<lparr>url = u,
               videoQuality = Some (or_default (req_videoQuality request) ''1080''),
               audioFormat = None,
               audioBitrate = None,
               downloadMode = Some (or_default (req_downloadMode request) ''auto''),
               filenameStyle = None,
               youtubeVideoCodec = None\<rparr>"
  have "requestDownload e ?opts w = (Inl err, w\<lparr>requests := requests w @ [COBALT_API_URL e]\<rparr>)"
    using assms(5) [of ?opts] requestDownload_world [of e ?opts w]
    by (cases "requestDownload e ?opts w") simp
  then have "POST_try e w = (Inl err, w\<lparr>requests := requests w @ [COBALT_API_URL e]\<rparr>)"
    by (simp add: POST_try_valid [OF assms(1-4)])
  then show ?thesis by (simp add: POST_def)
qed

text \<open>
  Claim C2, as amended. \<open>requestDownload\<close> returns a response of the resolution service
  only when the HTTP exchange succeeds. When the service is unreachable it rejects with
  the error of \<open>fetch\<close>, and on a non-success HTTP response it rejects with the error
  \<open>Cobalt API error: status statusText\<close>; it produces no failure value with the code
  \<open>transport_error\<close>. The error reaches the caller: the route handler's \<open>catch\<close> answers
  with status 500 and the error's message, and no media is downloaded, stored or recorded.
\<close>

theorem requestDownload_transport_failure:
  "((\<forall>sent. cobalt_fetch e sent = Inl err) \<longrightarrow> fst (requestDownload e opts w) = Inl err)
   \<and> ((\<forall>sent. cobalt_fetch e sent = Inr response) \<and> \<not> ok response
        \<longrightarrow> fst (requestDownload e opts w) =
              Inl (Error (''Cobalt API error: '' @ digits (status response) @ '' '' @ statusText response)))
   \<and> (request_json e = Inr request \<and> req_url request = Some u \<and> u \<noteq> [] \<and> isUrlSupported u
        \<and> (\<forall>sent. cobalt_fetch e sent = Inl err)
        \<longrightarrow> POST e w = (json_error 500 (case err of Error msg \<Rightarrow> msg | NonError \<Rightarrow> ''Download failed''),
                          w\<lparr>requests := requests w @ [COBALT_API_URL e]\<rparr>))
   \<and> (request_json e = Inr request \<and> req_url request = Some u \<and> u \<noteq> [] \<and> isUrlSupported u
        \<and> (\<forall>sent. cobalt_fetch e sent = Inr response) \<and> \<not> ok response
        \<longrightarrow> POST e w = (json_error 500 (''Cobalt API error: '' @ digits (status response) @ '' ''
                                           @ statusText response),
                          w\<lparr>requests := requests w @ [COBALT_API_URL e]\<rparr>))"
proof (intro conjI impI)
  assume "\<forall>sent. cobalt_fetch e sent = Inl err"
  then show "fst (requestDownload e opts w) = Inl err" by (rule requestDownload_rejected)
next
  assume "(\<forall>sent. cobalt_fetch e sent = Inr response) \<and> \<not> ok response"
  then show "fst (requestDownload e opts w) =
              Inl (Error (''Cobalt API error: '' @ digits (status response) @ '' '' @ statusText response))"
    by (simp add: requestDownload_not_ok)
next
  assume a: "request_json e = Inr request \<and> req_url request = Some u \<and> u \<noteq> [] \<and> isUrlSupported u
        \<and> (\<forall>sent. cobalt_fetch e sent = Inl err)"
  then have "\<And>opts. fst (requestDownload e opts w) = Inl err"
    by (simp add: requestDownload_rejected)
  with a show "POST e w = (json_error 500 (case err of Error msg \<Rightarrow> msg | NonError \<Rightarrow> ''Download failed''),
                          w\<lparr>requests := requests w @ [COBALT_API_URL e]\<rparr>)"
    using POST_resolution_error [of e request u w err] by blast
next
  let ?err = "Error (''Cobalt API error: '' @ digits (status response) @ '' '' @ statusText response)"
  assume a: "request_json e = Inr request \<and> req_url request = Some u \<and> u \<noteq> [] \<and> isUrlSupported u
        \<and> (\<forall>sent. cobalt_fetch e sent = Inr response) \<and> \<not> ok response"
  then have "\<And>opts. fst (requestDownload e opts w) = Inl ?err"
    by (simp add: requestDownload_not_ok)
  with a have "POST e w = (json_error 500 (case ?err of Error msg \<Rightarrow> msg | NonError \<Rightarrow> ''Download failed''),
                          w\<lparr>requests := requests w @ [COBALT_API_URL e]\<rparr>)"
    using POST_resolution_error [of e request u w ?err] by blast
  then show "POST e w = (json_error 500 (''Cobalt API error: '' @ digits (status response) @ '' ''
                                           @ statusText response),
                          w\<lparr>requests := requests w @ [COBALT_API_URL e]\<rparr>)"
    by simp
qed

text \<open>
  Claim C2 as stated fails: on a 502 response of the resolution service, \<open>requestDownload\<close>
  returns no value, it raises an error.
\<close>

theorem requestDownload_throws:
  "fst (requestDownload bad_gateway_env sample_options sample_world)
     = Inl (Error ''Cobalt API error: 502 Bad Gateway'')"
  by (simp add: requestDownload_def bad_gateway_env_def sample_env_def Let_def
                digits.simps digit_char_def)




lemma sample_url_supported: "isUrlSupported ''https://www.youtube.com/watch?v=abc''"
  by code_simp

theorem requestDownload_transport_failure_witness:
  "request_json bad_gateway_env =
      Inr \<lparr>req_url = Some ''https://www.youtube.com/watch?v=abc'', req_videoQuality = Some ''720'',
           req_downloadMode = None, req_compress = Some True\<rparr>
   \<and> isUrlSupported ''https://www.youtube.com/watch?v=abc''
   \<and> (\<forall>sent. \<exists>response. cobalt_fetch bad_gateway_env sent = Inr response \<and> \<not> ok response)
   \<and> POST bad_gateway_env sample_world =
        (json_error 500 ''Cobalt API error: 502 Bad Gateway'',
         sample_world\<lparr>requests := [''http://cobalt:9000'']\<rparr>)"
proof -
  let ?request = "\<lparr>req_url = Some ''https://www.youtube.com/watch?v=abc'', req_videoQuality = Some ''720'',
           req_downloadMode = None, req_compress = Some True\<rparr>"
  let ?response = "\<lparr>ok = False, status = 502, statusText = ''Bad Gateway'',
                     header_content_type = None, header_content_length = None,
                     body = Inl (Error ''Unexpected end of JSON input'') :: js_error + CobaltResponse\<rparr>"
  have h1: "request_json bad_gateway_env = Inr ?request"
    by (simp add: bad_gateway_env_def sample_env_def)
  have h2: "req_url ?request = Some ''https://www.youtube.com/watch?v=abc''" by simp
  have h3: "''https://www.youtube.com/watch?v=abc'' \<noteq> []" by simp
  note h4 = sample_url_supported
  have h5: "\<forall>sent. cobalt_fetch bad_gateway_env sent = Inr ?response"
    by (simp add: bad_gateway_env_def sample_env_def)
  have h6: "\<not> ok ?response" by simp
  from requestDownload_transport_failure [of bad_gateway_env "NonError" sample_options sample_world ?response ?request
      "''https://www.youtube.com/watch?v=abc''", THEN conjunct2, THEN conjunct2, THEN conjunct2, rule_format]
    h1 h2 h3 h4 h5 h6
  have "POST bad_gateway_env sample_world =
          (json_error 500 (''Cobalt API error: '' @ digits (status ?response) @ '' '' @ statusText ?response),
           sample_world\<lparr>requests := requests sample_world @ [COBALT_API_URL bad_gateway_env]\<rparr>)"
    by blast
  then have "POST bad_gateway_env sample_world =
        (json_error 500 ''Cobalt API error: 502 Bad Gateway'',
         sample_world\<lparr>requests := [''http://cobalt:9000'']\<rparr>)"
    by (simp add: digits.simps digit_char_def sample_world_def bad_gateway_env_def sample_env_def)
  with h1 h4 h5 h6 show ?thesis by blast
qed


section \<open>What a run of the route handler does\<close>


lemma downloadFromUrl_world:
  "snd (downloadFromUrl e u w) = w\<lparr>requests := requests w @ [u]\<rparr>"
  by (simp add: downloadFromUrl_def Let_def split: sum.splits)

lemma downloadFromUrl_fails:
  assumes "download_fails e u"
  shows "\<exists>err. fst (downloadFromUrl e u w) = Inl err"
  using assms
  by (auto simp: download_fails_def downloadFromUrl_def Let_def isl_def split: sum.splits)

lemma compress_step_world:
  "\<exists>T. snd (compress_step e sc buf ct w) = w\<lparr>tmp_files := T\<rparr>"
proof (cases "sc \<and> checkFFmpegAvailable e")
  case True
  obtain r w' where cv: "compressVideo e buf ct w = (r, w')"
    by (cases "compressVideo e buf ct w")
  from compressVideo_world_eq [of e buf ct w] cv
  have w': "w' = w\<lparr>tmp_files := tmp_files w'\<rparr>" by simp
  from True cv have "snd (compress_step e sc buf ct w) = w'"
    by (cases r) (simp_all add: compress_step_def)
  with w' have "snd (compress_step e sc buf ct w) = w\<lparr>tmp_files := tmp_files w'\<rparr>" by simp
  then show ?thesis by blast
next
  case False
  then have "snd (compress_step e sc buf ct w) = w\<lparr>tmp_files := tmp_files w\<rparr>"
    by (auto simp: compress_step_def)
  then show ?thesis by blast
qed


lemma downloadFromUrl_succeeds:
  assumes "fst (downloadFromUrl e u w) = Inr dl"
  shows "\<not> download_fails e u"
  using assms downloadFromUrl_fails [of e u w] by auto

lemma POST_tunnel_outcome:
  obtains (failed) err w' where "POST_tunnel e r p sc d f w = (Inl err, w')"
      and "video_table w' = video_table w" and "requests w' = requests w @ [d]"
  | (stored) reply w' row content where "POST_tunnel e r p sc d f w = (Inr reply, w')"
      and "video_table w' = video_table w @ [row]" and "requests w' = requests w @ [d]"
      and "bucket w' (fileKey row) = Some (content, mimeType row)"
      and "put_object e = None" and "\<not> download_fails e d"
      and "video_status row = ''COMPLETED''" and "reply_video reply = Some row"
proof (cases "downloadFromUrl e d w")
  case (Pair r1 w1)
  have w1: "w1 = w\<lparr>requests := requests w @ [d]\<rparr>"
    using downloadFromUrl_world [of e d w] Pair by simp
  show ?thesis
  proof (cases r1)
    case (Inl err)
    with Pair have "POST_tunnel e r p sc d f w = (Inl err, w1)"
      by (simp add: POST_tunnel_def)
    then show ?thesis using w1 by (intro failed [of err w1]) simp_all
  next
    case (Inr dl)
    with Pair have nd: "\<not> download_fails e d"
      using downloadFromUrl_succeeds [of e d w dl] by simp
    obtain res w2 where cs0: "compress_step e sc (buffer dl) (contentType dl) w1 = (res, w2)"
      by (cases "compress_step e sc (buffer dl) (contentType dl) w1")
    obtain b sz c where res: "res = (b, sz, c)" by (cases res)
    from compress_step_world [of e sc "buffer dl" "contentType dl" w1] cs0
    obtain T where w2: "w2 = w1\<lparr>tmp_files := T\<rparr>" by auto
    note cs = cs0 [unfolded res]
    let ?key = "generateFileKey (now e) (random36 e) (replace_ext ''.mp4'' f)"
    show ?thesis
    proof (cases "put_object e")
      case (Some err)
      with Pair Inr cs have "POST_tunnel e r p sc d f w = (Inl err, w2)"
        by (simp add: POST_tunnel_def uploadFile_def Let_def)
      then show ?thesis using w1 w2 by (intro failed [of err w2]) simp_all
    next
      case None
      show ?thesis
      proof (cases "video_create e")
        case (Inl err)
        with None Pair Inr cs
        have "POST_tunnel e r p sc d f w = (Inl err, w2\<lparr>bucket := (bucket w2)(?key \<mapsto> (b, c))\<rparr>)"
          by (simp add: POST_tunnel_def uploadFile_def create_video_def Let_def)
        then show ?thesis using w1 w2
          by (intro failed [of err "w2\<lparr>bucket := (bucket w2)(?key \<mapsto> (b, c))\<rparr>"]) simp_all
      next
        case created: (Inr new_id)
        let ?row = "\<lparr>video_id = new_id,
                     title = extractTitleFromFilename (unicode_upper e) f,
                     fileName = replace_ext ''.mp4'' f,
                     fileKey = ?key,
                     fileSize = sz,
                     mimeType = c,
                     video_status = ''COMPLETED'',
                     platform = p,
                     originalUrl = r\<rparr>"
        let ?reply = "\<lparr>reply_status = 200, reply_error = None, reply_video = Some ?row,
                       reply_originalSize = Some (int (length (buffer dl))),
                       reply_compressionSaved = Some (int (length (buffer dl)) - sz)\<rparr>"
        let ?w' = "w2\<lparr>bucket := (bucket w2)(?key \<mapsto> (b, c)), video_table := video_table w2 @ [?row]\<rparr>"
        from None created Pair Inr cs
        have "POST_tunnel e r p sc d f w = (Inr ?reply, ?w')"
          by (simp add: POST_tunnel_def uploadFile_def create_video_def Let_def)
        then show ?thesis using w1 w2 None nd
          by (intro stored [of ?reply ?w' ?row b]) simp_all
      qed
    qed
  qed
qed


lemma POST_picker_outcome:
  obtains (no_video) "find (\<lambda>item. item_type item = Video) items = None"
      and "POST_picker e r p sc items w = (Inr (json_error 400 ''No video found in the content''), w)"
  | (failed) v err w' where "find (\<lambda>item. item_type item = Video) items = Some v"
      and "POST_picker e r p sc items w = (Inl err, w')"
      and "video_table w' = video_table w" and "requests w' = requests w @ [item_url v]"
  | (stored) v reply w' row content where "find (\<lambda>item. item_type item = Video) items = Some v"
      and "POST_picker e r p sc items w = (Inr reply, w')"
      and "video_table w' = video_table w @ [row]" and "requests w' = requests w @ [item_url v]"
      and "bucket w' (fileKey row) = Some (content, mimeType row)"
      and "put_object e = None" and "\<not> download_fails e (item_url v)"
      and "video_status row = ''COMPLETED''" and "reply_video reply = Some row"
proof (cases "find (\<lambda>item. item_type item = Video) items")
  case None
  then have "POST_picker e r p sc items w = (Inr (json_error 400 ''No video found in the content''), w)"
    by (simp add: POST_picker_def)
  with None show ?thesis by (rule no_video)
next
  case (Some v)
  let ?d = "item_url v"
  show ?thesis
  proof (cases "downloadFromUrl e ?d w")
    case (Pair r1 w1)
    have w1: "w1 = w\<lparr>requests := requests w @ [?d]\<rparr>"
      using downloadFromUrl_world [of e ?d w] Pair by simp
    show ?thesis
    proof (cases r1)
      case (Inl err)
      with Some Pair have "POST_picker e r p sc items w = (Inl err, w1)"
        by (simp add: POST_picker_def)
      then show ?thesis using w1 Some by (intro failed [of v err w1]) simp_all
    next
      case (Inr dl)
      with Pair have nd: "\<not> download_fails e ?d"
        using downloadFromUrl_succeeds [of e ?d w dl] by simp
      obtain res w2 where cs0: "compress_step e sc (buffer dl) (contentType dl) w1 = (res, w2)"
        by (cases "compress_step e sc (buffer dl) (contentType dl) w1")
      obtain b sz c where res: "res = (b, sz, c)" by (cases res)
      from compress_step_world [of e sc "buffer dl" "contentType dl" w1] cs0
      obtain T where w2: "w2 = w1\<lparr>tmp_files := T\<rparr>" by auto
      note cs = cs0 [unfolded res]
      let ?key = "generateFileKey (now e) (random36 e) ''video.mp4''"
      show ?thesis
      proof (cases "put_object e")
        case upload_failed: (Some err)
        with Some Pair Inr cs have "POST_picker e r p sc items w = (Inl err, w2)"
          by (simp add: POST_picker_def uploadFile_def Let_def)
        then show ?thesis using w1 w2 Some by (intro failed [of v err w2]) simp_all
      next
        case None
        show ?thesis
        proof (cases "video_create e")
          case (Inl err)
          with None Some Pair Inr cs
          have "POST_picker e r p sc items w = (Inl err, w2\<lparr>bucket := (bucket w2)(?key \<mapsto> (b, c))\<rparr>)"
            by (simp add: POST_picker_def uploadFile_def create_video_def Let_def)
          then show ?thesis using w1 w2 Some
            by (intro failed [of v err "w2\<lparr>bucket := (bucket w2)(?key \<mapsto> (b, c))\<rparr>"]) simp_all
        next
          case created: (Inr new_id)
          let ?row = "\<lparr>video_id = new_id,
                       title = ''Video from '' @ (case p of Some n \<Rightarrow> n | None \<Rightarrow> ''null''),
                       fileName = ''video.mp4'',
                       fileKey = ?key,
                       fileSize = sz,
                       mimeType = c,
                       video_status = ''COMPLETED'',
                       platform = p,
                       originalUrl = r\<rparr>"
          let ?reply = "\<lparr>reply_status = 200, reply_error = None, reply_video = Some ?row,
                         reply_originalSize = None,
                         reply_compressionSaved = None\<rparr>"
          let ?w' = "w2\<lparr>bucket := (bucket w2)(?key \<mapsto> (b, c)), video_table := video_table w2 @ [?row]\<rparr>"
          from None created Some Pair Inr cs
          have "POST_picker e r p sc items w = (Inr ?reply, ?w')"
            by (simp add: POST_picker_def uploadFile_def create_video_def Let_def)
          then show ?thesis using w1 w2 None nd Some
            by (intro stored [of v ?reply ?w' ?row b]) simp_all
        qed
      qed
    qed
  qed
qed


lemma POST_try_outcome:
  obtains (no_record) res w' where "POST_try e w = (res, w')" and "video_table w' = video_table w"
  | (recorded) reply w' row content u where "POST_try e w = (Inr reply, w')"
      and "video_table w' = video_table w @ [row]"
      and "bucket w' (fileKey row) = Some (content, mimeType row)"
      and "put_object e = None" and "u \<in> set (requests w')" and "\<not> download_fails e u"
      and "video_status row = ''COMPLETED''" and "reply_video reply = Some row"
proof (cases "request_json e")
  case (Inl err)
  then have "POST_try e w = (Inl err, w)" by (simp add: POST_try_def)
  then show ?thesis by (rule no_record) simp
next
  case (Inr request)
  show ?thesis
  proof (cases "req_url request = None \<or> req_url request = Some []")
    case True
    with Inr have "POST_try e w = (Inr (json_error 400 ''URL is required''), w)"
      by (simp add: POST_try_def)
    then show ?thesis by (rule no_record) simp
  next
    case False
    then obtain u where u: "req_url request = Some u" "u \<noteq> []" by auto
    show ?thesis
    proof (cases "isUrlSupported u")
      case False
      with Inr u have "POST_try e w = (Inr (json_error 400
                         ''URL is not supported. Try YouTube, TikTok, Instagram, or LinkedIn.''), w)"
        by (simp add: POST_try_def)
      then show ?thesis by (rule no_record) simp
    next
      case True
      let ?opts = "\<lparr>url = u,
                    videoQuality = Some (or_default (req_videoQuality request) ''1080''),
                    audioFormat = None,
                    audioBitrate = None,
                    downloadMode = Some (or_default (req_downloadMode request) ''auto''),
                    filenameStyle = None,
                    youtubeVideoCodec = None\<rparr>"
      let ?sc = "req_compress request \<noteq> Some False \<and> COMPRESSION_ENABLED e"
      note valid = POST_try_valid [OF Inr u True, of w]
      obtain r1 w1 where rd: "requestDownload e ?opts w = (r1, w1)"
        by (cases "requestDownload e ?opts w")
      have w1: "video_table w1 = video_table w" "bucket w1 = bucket w"
        using requestDownload_world [of e ?opts w] rd by simp_all
      show ?thesis
      proof (cases r1)
        case (Inl err)
        with rd have "POST_try e w = (Inl err, w1)" by (simp add: valid)
        then show ?thesis using w1 by (intro no_record [of "Inl err" w1]) simp_all
      next
        case resp: (Inr cobaltResponse)
        show ?thesis
        proof (cases cobaltResponse)
          case (CobaltTunnelResponse st downloadUrl filename)
          with rd resp have t: "POST_try e w = POST_tunnel e u (detectPlatform u) ?sc downloadUrl filename w1"
            by (simp add: valid)
          show ?thesis
          proof (cases rule: POST_tunnel_outcome [of e u "detectPlatform u" ?sc downloadUrl filename w1])
            case (failed err w')
            then show ?thesis using w1 t by (intro no_record [of "Inl err" w']) simp_all
          next
            case (stored reply w' row content)
            then show ?thesis using w1 t
              by (intro recorded [of reply w' row content downloadUrl]) simp_all
          qed
        next
          case (CobaltPickerResponse items)
          with rd resp have t: "POST_try e w = POST_picker e u (detectPlatform u) ?sc items w1"
            by (simp add: valid)
          show ?thesis
          proof (cases rule: POST_picker_outcome [of items e u "detectPlatform u" ?sc w1])
            case no_video
            then show ?thesis using w1 t
              by (intro no_record [of "Inr (json_error 400 ''No video found in the content'')" w1]) simp_all
          next
            case (failed v err w')
            then show ?thesis using w1 t by (intro no_record [of "Inl err" w']) simp_all
          next
            case (stored v reply w' row content)
            then show ?thesis using w1 t
              by (intro recorded [of reply w' row content "item_url v"]) simp_all
          qed
        next
          case (CobaltErrorResponse code service)
          with rd resp have "POST_try e w = (Inr (json_error 400 (''Download failed: '' @ code)), w1)"
            by (simp add: valid)
          then show ?thesis using w1 by (intro no_record [of _ w1]) simp_all
        next
          case (CobaltUnknownResponse st)
          with rd resp have "POST_try e w = (Inr (json_error 500 ''Unexpected response from download service''), w1)"
            by (simp add: valid)
          then show ?thesis using w1 by (intro no_record [of _ w1]) simp_all
        qed
      qed
    qed
  qed
qed

text \<open>
  Claim C8. A run of the route handler adds at most one row to the video table, and it
  adds it only after the upload has succeeded: the object of the row's file key is then
  in the bucket, with the row's content type, a download requested in the run has
  succeeded, the row is complete, and it is the row of the reply. There is no earlier write to the table, so a run whose download or upload
  fails adds no row.
\<close>

theorem record_only_after_upload:
  "\<exists>new. video_table (snd (POST e w)) = video_table w @ new \<and> length new \<le> 1
     \<and> (\<forall>row \<in> set new.
           put_object e = None
         \<and> (\<exists>content. bucket (snd (POST e w)) (fileKey row) = Some (content, mimeType row))
         \<and> (\<exists>u \<in> set (requests (snd (POST e w))). \<not> download_fails e u)
         \<and> video_status row = ''COMPLETED''
         \<and> reply_video (fst (POST e w)) = Some row)
     \<and> (put_object e \<noteq> None \<longrightarrow> new = [])
     \<and> ((\<forall>u. download_fails e u) \<longrightarrow> new = [])"
proof (cases rule: POST_try_outcome [of e w])
  case (no_record res w')
  then have "video_table (snd (POST e w)) = video_table w @ []"
    by (cases res) (simp_all add: POST_def)
  then show ?thesis by (intro exI [of _ "[]"]) simp
next
  case (recorded reply w' row content u)
  then have p: "POST e w = (reply, w')" by (simp add: POST_def)
  have "video_table (snd (POST e w)) = video_table w @ [row] \<and> length [row] \<le> 1
     \<and> (\<forall>r \<in> set [row].
           put_object e = None
         \<and> (\<exists>content. bucket (snd (POST e w)) (fileKey r) = Some (content, mimeType r))
         \<and> (\<exists>u \<in> set (requests (snd (POST e w))). \<not> download_fails e u)
         \<and> video_status r = ''COMPLETED''
         \<and> reply_video (fst (POST e w)) = Some r)
     \<and> (put_object e \<noteq> None \<longrightarrow> [row] = [])
     \<and> ((\<forall>u. download_fails e u) \<longrightarrow> [row] = [])"
    using recorded by (auto simp: p)
  then show ?thesis by (rule exI)
qed


section \<open>The sample run, evaluated\<close>


lemma sample_url_platform: "detectPlatform ''https://www.youtube.com/watch?v=abc'' = Some ''YouTube''"
  by code_simp

lemma sample_key: "generateFileKey 1700000000000 ''0.k3j9x2m1q8z'' ''My_Video-Clip.mp4''
   = ''videos/1700000000000-k3j9x2m1q8z.mp4''"
  by (simp add: generateFileKey_def substring_def pop_def split_def digits.simps digit_char_def)

lemma sample_title: "extractTitleFromFilename upper ''My_Video-Clip.mp4'' = ''My Video Clip''"
  by (simp add: extractTitleFromFilename_def ext_match_here_def replace_separators_def
                capitalize_first_def toUpperCase_def lower_letters_def upper_letters_def)

lemma sample_name: "replace_ext ''.mp4'' ''My_Video-Clip.mp4'' = ''My_Video-Clip.mp4''"
  by (simp add: ext_match_here_def)

lemma sample_compress:
  "compress_step (sample_env\<lparr>cobalt_fetch := c\<rparr>) True [1, 2, 3, 4] ''video/webm'' w =
     (([9, 9], 2, ''video/mp4''),
      snd (compressVideo (sample_env\<lparr>cobalt_fetch := c\<rparr>) [1, 2, 3, 4] ''video/webm'' w))"
  by (simp add: compress_step_def checkFFmpegAvailable_def compressVideo_def compressVideo_try_def
        writeFile_def runFFmpeg_def readFile_def join_def getExtensionFromMimeType_def mimeMap_def
        or_default_def sample_env_def Let_def)

lemma sample_download:
  "downloadFromUrl (sample_env\<lparr>cobalt_fetch := c\<rparr>) u w =
     (Inr \<lparr>buffer = [1, 2, 3, 4], contentType = ''video/webm'', contentLength = Num 4\<rparr>,
      w\<lparr>requests := requests w @ [u]\<rparr>)"
  by (simp add: downloadFromUrl_def sample_env_def ok_response_def Let_def or_default_def
        parseInt10_def is_space_def is_digit_def digit_val_def decimal_value_def)

lemma sample_tunnel:
  "fst (POST (sample_env\<lparr>cobalt_fetch := (\<lambda>sent. Inr (ok_response (CobaltTunnelResponse Tunnel d f)))\<rparr>)
        sample_world) =
     \<lparr>reply_status = 200, reply_error = None,
      reply_video = Some \<lparr>video_id = ''vid1'', title = extractTitleFromFilename (unicode_upper sample_env) f,
                          fileName = replace_ext ''.mp4'' f,
                          fileKey = generateFileKey 1700000000000 ''0.k3j9x2m1q8z'' (replace_ext ''.mp4'' f),
                          fileSize = 2, mimeType = ''video/mp4'', video_status = ''COMPLETED'',
                          platform = Some ''YouTube'',
                          originalUrl = ''https://www.youtube.com/watch?v=abc''\<rparr>,
      reply_originalSize = Some 4,
      reply_compressionSaved = Some 2\<rparr>"
  (is "fst (POST ?e sample_world) = _")
proof -
  have env: "request_json ?e = Inr \<lparr>req_url = Some ''https://www.youtube.com/watch?v=abc'',
                          req_videoQuality = Some ''720'',
                          req_downloadMode = None,
                          req_compress = Some True\<rparr>"
    "COMPRESSION_ENABLED ?e" "now ?e = 1700000000000"
    "random36 ?e = ''0.k3j9x2m1q8z''" "put_object ?e = None"
    "video_create ?e = Inr ''vid1''"
    by (simp_all add: sample_env_def)
  have rd: "requestDownload ?e opts w =
     (Inr (CobaltTunnelResponse Tunnel d f),
      w\<lparr>requests := requests w @ [''http://cobalt:9000'']\<rparr>)" for opts w
    by (simp add: requestDownload_def sample_env_def ok_response_def Let_def)
  show ?thesis
    by (simp add: POST_def POST_try_def sample_url_supported sample_url_platform env rd sample_download
          POST_tunnel_def sample_compress uploadFile_def create_video_def Let_def
          del: replace_ext.simps)
qed

text \<open>
  Claim C5, evaluated where the code departs from it. The resolution service suggests the
  file name \<open>video\<close>, which has no extension; compression succeeds (the stored object has
  the two bytes of the encoder and the type \<open>video/mp4\<close>). The extension pattern finds
  nothing to replace: the recorded file name is \<open>video\<close> and the storage key ends in
  \<open>.video\<close>, neither ends in \<open>.mp4\<close>.
\<close>

theorem extensionless_name_kept:
  "map_option fileName (reply_video (fst (POST extensionless_env sample_world))) = Some ''video''
   \<and> map_option fileKey (reply_video (fst (POST extensionless_env sample_world)))
       = Some ''videos/1700000000000-k3j9x2m1q8z.video''
   \<and> map_option mimeType (reply_video (fst (POST extensionless_env sample_world))) = Some ''video/mp4''
   \<and> map_option fileSize (reply_video (fst (POST extensionless_env sample_world))) = Some 2"
  by (simp add: extensionless_env_def sample_tunnel ext_match_here_def generateFileKey_def
        substring_def pop_def split_def digits.simps digit_char_def)




lemma sample_env_fetch: "sample_env\<lparr>cobalt_fetch := cobalt_fetch sample_env\<rparr> = sample_env"
  by simp

lemma sample_table:
  "video_table (snd (POST sample_env sample_world)) =
     [\<lparr>video_id = ''vid1'', title = ''My Video Clip'',
       fileName = ''My_Video-Clip.mp4'',
       fileKey = ''videos/1700000000000-k3j9x2m1q8z.mp4'',
       fileSize = 2, mimeType = ''video/mp4'', video_status = ''COMPLETED'',
       platform = Some ''YouTube'',
       originalUrl = ''https://www.youtube.com/watch?v=abc''\<rparr>]"
proof -
  have env: "request_json sample_env = Inr \<lparr>req_url = Some ''https://www.youtube.com/watch?v=abc'',
                          req_videoQuality = Some ''720'',
                          req_downloadMode = None,
                          req_compress = Some True\<rparr>"
    "COMPRESSION_ENABLED sample_env" "now sample_env = 1700000000000"
    "random36 sample_env = ''0.k3j9x2m1q8z''" "put_object sample_env = None"
    "video_create sample_env = Inr ''vid1''"
    by (simp_all add: sample_env_def)
  have rd: "requestDownload sample_env opts w =
     (Inr (CobaltTunnelResponse Tunnel ''https://cdn/example.mp4'' ''My_Video-Clip.mp4''),
      w\<lparr>requests := requests w @ [''http://cobalt:9000'']\<rparr>)" for opts w
    by (simp add: requestDownload_def sample_env_def ok_response_def Let_def)
  have dl: "downloadFromUrl sample_env u w =
     (Inr \<lparr>buffer = [1, 2, 3, 4], contentType = ''video/webm'', contentLength = Num 4\<rparr>,
      w\<lparr>requests := requests w @ [u]\<rparr>)" for u w
    using sample_download [of "cobalt_fetch sample_env" u w] by (simp only: sample_env_fetch)
  have cs: "compress_step sample_env True [1, 2, 3, 4] ''video/webm'' w =
     (([9, 9], 2, ''video/mp4''), snd (compressVideo sample_env [1, 2, 3, 4] ''video/webm'' w))" for w
    using sample_compress [of "cobalt_fetch sample_env" w] by (simp only: sample_env_fetch)
  show ?thesis
    by (simp add: POST_def POST_try_def sample_url_supported sample_url_platform env rd dl
          POST_tunnel_def cs sample_key sample_title sample_name compressVideo_frame
          uploadFile_def create_video_def Let_def sample_world_def
          del: replace_ext.simps)
qed

theorem record_only_after_upload_witness:
  "(\<exists>row. row \<in> set (video_table (snd (POST sample_env sample_world)))
       \<and> fileKey row = ''videos/1700000000000-k3j9x2m1q8z.mp4''
       \<and> (\<exists>content. bucket (snd (POST sample_env sample_world)) (fileKey row)
                        = Some (content, ''video/mp4'')))
   \<and> put_object (sample_env\<lparr>put_object := Some (Error ''bucket unreachable'')\<rparr>) \<noteq> None
   \<and> video_table (snd (POST (sample_env\<lparr>put_object := Some (Error ''bucket unreachable'')\<rparr>) sample_world)) = []"
proof -
  let ?row = "\<lparr>video_id = ''vid1'', title = ''My Video Clip'',
       fileName = ''My_Video-Clip.mp4'',
       fileKey = ''videos/1700000000000-k3j9x2m1q8z.mp4'',
       fileSize = 2, mimeType = ''video/mp4'', video_status = ''COMPLETED'',
       platform = Some ''YouTube'',
       originalUrl = ''https://www.youtube.com/watch?v=abc''\<rparr>"
  let ?bad = "sample_env\<lparr>put_object := Some (Error ''bucket unreachable'')\<rparr>"
  have empty: "video_table sample_world = []" by (simp add: sample_world_def)
  from record_only_after_upload [of sample_env sample_world]
  obtain new where new: "video_table (snd (POST sample_env sample_world)) = video_table sample_world @ new"
    and stored: "\<forall>row \<in> set new.
           put_object sample_env = None
         \<and> (\<exists>content. bucket (snd (POST sample_env sample_world)) (fileKey row) = Some (content, mimeType row))
         \<and> (\<exists>u \<in> set (requests (snd (POST sample_env sample_world))). \<not> download_fails sample_env u)
         \<and> video_status row = ''COMPLETED''
         \<and> reply_video (fst (POST sample_env sample_world)) = Some row"
    by blast
  from new empty sample_table have "new = [?row]" by simp
  with stored have "\<exists>content. bucket (snd (POST sample_env sample_world)) (fileKey ?row)
                        = Some (content, mimeType ?row)" by simp
  then have a: "\<exists>row. row \<in> set (video_table (snd (POST sample_env sample_world)))
       \<and> fileKey row = ''videos/1700000000000-k3j9x2m1q8z.mp4''
       \<and> (\<exists>content. bucket (snd (POST sample_env sample_world)) (fileKey row)
                        = Some (content, ''video/mp4''))"
    by (intro exI [of _ ?row]) (simp add: sample_table)
  have h: "put_object ?bad \<noteq> None" by simp
  from record_only_after_upload [of ?bad sample_world]
  obtain new' where "video_table (snd (POST ?bad sample_world)) = video_table sample_world @ new'"
    and "put_object ?bad \<noteq> None \<longrightarrow> new' = []"
    by blast
  with h empty have b: "video_table (snd (POST ?bad sample_world)) = []" by simp
  from a h b show ?thesis by blast
qed


section \<open>Picker results\<close>


lemma POST_world: "snd (POST e w) = snd (POST_try e w)"
  by (cases "POST_try e w"; cases "fst (POST_try e w)") (simp_all add: POST_def)

lemma find_first_video:
  assumes "items = photos @ v # rest" and "\<forall>p \<in> set photos. item_type p = Photo"
    and "item_type v = Video"
  shows "find (\<lambda>item. item_type item = Video) items = Some v"
  using assms by (induction photos arbitrary: items) auto

lemma find_no_video:
  assumes "\<forall>item \<in> set items. item_type item \<noteq> Video"
  shows "find (\<lambda>item. item_type item = Video) items = None"
  using assms by (simp add: find_None_iff)

text \<open>
  Claim C6. When the resolution service answers a supported URL with a picker, the route
  handler downloads the first item whose kind is video, whatever photo items come before
  it, and no other item. When the picker holds no video item, the run ends with the
  client error \<open>No video found in the content\<close>: nothing is downloaded, nothing is stored
  and no row is written.
\<close>

theorem picker_first_video:
  assumes "request_json e = Inr request" and "req_url request = Some u" and "u \<noteq> []"
    and "isUrlSupported u"
    and "\<forall>sent. cobalt_fetch e sent = Inr response" and "ok response"
    and "body response = Inr (CobaltPickerResponse items)"
  shows "((\<forall>item \<in> set items. item_type item \<noteq> Video)
           \<longrightarrow> POST e w = (json_error 400 ''No video found in the content'',
                             w\<lparr>requests := requests w @ [COBALT_API_URL e]\<rparr>))
       \<and> (\<forall>photos v rest.
             items = photos @ v # rest \<and> (\<forall>p \<in> set photos. item_type p = Photo) \<and> item_type v = Video
             \<longrightarrow> requests (snd (POST e w)) = requests w @ [COBALT_API_URL e, item_url v])"
proof -
  let ?opts = "\<lparr>url = u,
                videoQuality = Some (or_default (req_videoQuality request) ''1080''),
                audioFormat = None,
                audioBitrate = None,
                downloadMode = Some (or_default (req_downloadMode request) ''auto''),
                filenameStyle = None,
                youtubeVideoCodec = None\<rparr>"
  let ?sc = "req_compress request \<noteq> Some False \<and> COMPRESSION_ENABLED e"
  let ?w1 = "w\<lparr>requests := requests w @ [COBALT_API_URL e]\<rparr>"
  have "fst (requestDownload e ?opts w) = Inr (CobaltPickerResponse items)"
    using requestDownload_ok [OF assms(5,6), of ?opts w] assms(7) by simp
  then have rd: "requestDownload e ?opts w = (Inr (CobaltPickerResponse items), ?w1)"
    using requestDownload_world [of e ?opts w]
    by (cases "requestDownload e ?opts w") simp
  have t: "POST_try e w = POST_picker e u (detectPlatform u) ?sc items ?w1"
    by (simp add: POST_try_valid [OF assms(1-4)] rd)
  have a: "(\<forall>item \<in> set items. item_type item \<noteq> Video)
           \<longrightarrow> POST e w = (json_error 400 ''No video found in the content'', ?w1)"
  proof
    assume "\<forall>item \<in> set items. item_type item \<noteq> Video"
    then have "find (\<lambda>item. item_type item = Video) items = None" by (rule find_no_video)
    then have "POST_try e w = (Inr (json_error 400 ''No video found in the content''), ?w1)"
      by (simp add: t POST_picker_def)
    then show "POST e w = (json_error 400 ''No video found in the content'', ?w1)"
      by (simp add: POST_def)
  qed
  have b: "requests (snd (POST e w)) = requests w @ [COBALT_API_URL e, item_url v]"
    if "items = photos @ v # rest \<and> (\<forall>p \<in> set photos. item_type p = Photo) \<and> item_type v = Video"
    for photos v rest
  proof -
    from that have f: "find (\<lambda>item. item_type item = Video) items = Some v"
      using find_first_video [of items photos v rest] by simp
    have "requests (snd (POST_picker e u (detectPlatform u) ?sc items ?w1)) = requests ?w1 @ [item_url v]"
    proof (cases rule: POST_picker_outcome [of items e u "detectPlatform u" ?sc ?w1])
      case no_video
      with f show ?thesis by simp
    next
      case (failed v' err w')
      with f show ?thesis by simp
    next
      case (stored v' reply w' row content)
      with f show ?thesis by simp
    qed
    then show ?thesis by (simp add: POST_world t)
  qed
  from a b show ?thesis by blast
qed




theorem picker_first_video_witness:
  "isUrlSupported ''https://www.youtube.com/watch?v=abc''
   \<and> (\<forall>sent. cobalt_fetch (picker_env [\<lparr>item_type = Photo, item_url = ''https://cdn/p1.jpg'', thumb = None\<rparr>,
                                           \<lparr>item_type = Video, item_url = ''https://cdn/v1.mp4'', thumb = None\<rparr>,
                                           \<lparr>item_type = Video, item_url = ''https://cdn/v2.mp4'', thumb = None\<rparr>]) sent
          = Inr (ok_response (CobaltPickerResponse
                   [\<lparr>item_type = Photo, item_url = ''https://cdn/p1.jpg'', thumb = None\<rparr>,
                    \<lparr>item_type = Video, item_url = ''https://cdn/v1.mp4'', thumb = None\<rparr>,
                    \<lparr>item_type = Video, item_url = ''https://cdn/v2.mp4'', thumb = None\<rparr>])))
   \<and> requests (snd (POST (picker_env [\<lparr>item_type = Photo, item_url = ''https://cdn/p1.jpg'', thumb = None\<rparr>,
                                        \<lparr>item_type = Video, item_url = ''https://cdn/v1.mp4'', thumb = None\<rparr>,
                                        \<lparr>item_type = Video, item_url = ''https://cdn/v2.mp4'', thumb = None\<rparr>])
                          sample_world))
       = [''http://cobalt:9000'', ''https://cdn/v1.mp4'']
   \<and> POST (picker_env [\<lparr>item_type = Photo, item_url = ''https://cdn/p1.jpg'', thumb = None\<rparr>]) sample_world
       = (json_error 400 ''No video found in the content'',
          sample_world\<lparr>requests := [''http://cobalt:9000'']\<rparr>)"
proof -
  let ?p1 = "\<lparr>item_type = Photo, item_url = ''https://cdn/p1.jpg'', thumb = None\<rparr>"
  let ?v1 = "\<lparr>item_type = Video, item_url = ''https://cdn/v1.mp4'', thumb = None\<rparr>"
  let ?v2 = "\<lparr>item_type = Video, item_url = ''https://cdn/v2.mp4'', thumb = None\<rparr>"
  let ?request = "\<lparr>req_url = Some ''https://www.youtube.com/watch?v=abc'', req_videoQuality = Some ''720'',
           req_downloadMode = None, req_compress = Some True\<rparr>"
  let ?u = "''https://www.youtube.com/watch?v=abc''"
  have h1: "request_json (picker_env items) = Inr ?request" for items
    by (simp add: picker_env_def sample_env_def)
  have h2: "req_url ?request = Some ?u" by simp
  have h3: "?u \<noteq> []" by simp
  note h4 = sample_url_supported
  have h5: "\<forall>sent. cobalt_fetch (picker_env items) sent = Inr (ok_response (CobaltPickerResponse items))"
    for items by (simp add: picker_env_def)
  have h6: "ok (ok_response (CobaltPickerResponse items))" for items
    by (simp add: ok_response_def)
  have h7: "body (ok_response (CobaltPickerResponse items)) = Inr (CobaltPickerResponse items)" for items
    by (simp add: ok_response_def)
  have api: "COBALT_API_URL (picker_env items) = ''http://cobalt:9000''" for items
    by (simp add: picker_env_def sample_env_def)
  have empty: "requests sample_world = []" by (simp add: sample_world_def)
  note mixed = picker_first_video [OF h1 h2 h3 h4 h5 h6 h7, of "[?p1, ?v1, ?v2]" sample_world]
  have split_items: "[?p1, ?v1, ?v2] = [?p1] @ ?v1 # [?v2] \<and> (\<forall>p \<in> set [?p1]. item_type p = Photo)
      \<and> item_type ?v1 = Video" by simp
  from mixed [THEN conjunct2, THEN spec, THEN spec, THEN spec, THEN mp, OF split_items]
  have a: "requests (snd (POST (picker_env [?p1, ?v1, ?v2]) sample_world))
       = [''http://cobalt:9000'', ''https://cdn/v1.mp4'']"
    by (simp add: api empty)
  note photos = picker_first_video [OF h1 h2 h3 h4 h5 h6 h7, of "[?p1]" sample_world]
  have none: "\<forall>item \<in> set [?p1]. item_type item \<noteq> Video" by simp
  from photos [THEN conjunct1, THEN mp, OF none]
  have b: "POST (picker_env [?p1]) sample_world
       = (json_error 400 ''No video found in the content'',
          sample_world\<lparr>requests := [''http://cobalt:9000'']\<rparr>)"
    by (simp add: api empty)
  from h4 h5 [of "[?p1, ?v1, ?v2]"] a b show ?thesis by blast
qed


section \<open>Titles on the direct path\<close>















end
